theory Spec2Isabelle
  imports Complex_Main
begin

section \<open>Python values and exceptions\<close>

text \<open>
  Raw records are read back from a JSON file, so a field of a raw record can hold any
  JSON value (\<open>Dict[str, Any]\<close> in the source). Numbers are kept as integers: the
  cleaner only ever asks whether a non-string value is falsy.
\<close>

datatype pyval =
    PStr string
  | PNone
  | PBool bool
  | PNum int
  | PList "pyval list"
  | PDict "(string \<times> pyval) list"

datatype py_exc = AttributeError | TypeError | ValueError | IndexError

text \<open>Python truthiness (\<open>not v\<close> is \<open>\<not> truthy v\<close>).\<close>

fun truthy :: "pyval \<Rightarrow> bool" where
  "truthy (PStr s) = (s \<noteq> [])"
| "truthy PNone = False"
| "truthy (PBool b) = b"
| "truthy (PNum n) = (n \<noteq> 0)"
| "truthy (PList xs) = (xs \<noteq> [])"
| "truthy (PDict kvs) = (kvs \<noteq> [])"

text \<open>Sequencing inside a \<open>try\<close> body: the first exception raised wins.\<close>

definition and_then :: "py_exc + 'a \<Rightarrow> ('a \<Rightarrow> py_exc + 'b) \<Rightarrow> py_exc + 'b" where
  "and_then m f = (case m of Inl e \<Rightarrow> Inl e | Inr v \<Rightarrow> f v)"

section \<open>Characters and string methods\<close>

text \<open>
  Text is modelled as a list of characters, read as the code points 0 to 255. On this
  range the classes below are Python's: \<open>is_space\<close> is \<open>str.isspace\<close> (the characters removed
  by \<open>str.strip()\<close> and matched by \<open>\s\<close>), \<open>is_digit\<close> is the class \<open>\d\<close>, \<open>is_upper\<close> and
  \<open>is_lower\<close> are \<open>str.isupper\<close> and \<open>str.islower\<close> on one character, and \<open>is_cased\<close> is the
  test \<open>str.title()\<close> makes on the preceding character.
\<close>

definition is_space :: "char \<Rightarrow> bool" where
  "is_space c = (let n = (of_char c :: nat)
                 in (9 \<le> n \<and> n \<le> 13) \<or> (28 \<le> n \<and> n \<le> 32) \<or> n = 133 \<or> n = 160)"

definition is_digit :: "char \<Rightarrow> bool" where
  "is_digit c = (let n = (of_char c :: nat) in 48 \<le> n \<and> n \<le> 57)"

definition is_upper :: "char \<Rightarrow> bool" where
  "is_upper c = (let n = (of_char c :: nat)
                 in (65 \<le> n \<and> n \<le> 90) \<or> (192 \<le> n \<and> n \<le> 214) \<or> (216 \<le> n \<and> n \<le> 222))"

definition is_lower :: "char \<Rightarrow> bool" where
  "is_lower c = (let n = (of_char c :: nat)
                 in (97 \<le> n \<and> n \<le> 122) \<or> n = 170 \<or> n = 181 \<or> n = 186
                    \<or> (223 \<le> n \<and> n \<le> 246) \<or> (248 \<le> n \<and> n \<le> 255))"

definition is_cased :: "char \<Rightarrow> bool" where
  "is_cased c = (is_upper c \<or> is_lower c)"

text \<open>
  The regular-expression class \<open>\w\<close>: the alphanumeric characters and the underscore.
  Below 256 the alphanumeric characters are the cased ones, the digits, the superscripts
  1 to 3 and the three vulgar fractions.
\<close>

definition is_word :: "char \<Rightarrow> bool" where
  "is_word c = (let n = (of_char c :: nat)
                in is_cased c \<or> is_digit c \<or> c = CHR ''_''
                   \<or> n = 178 \<or> n = 179 \<or> n = 185 \<or> (188 \<le> n \<and> n \<le> 190))"

text \<open>
  The lower-case and title-case forms of one character. The title-case form of U+00DF
  is the two characters \<open>Ss\<close>. The title-case forms of U+00B5 and U+00FF are U+039C and
  U+0178, which are not below 256: \<open>title_char\<close> leaves these two characters as they are.
\<close>

definition lower_char :: "char \<Rightarrow> char" where
  "lower_char c = (if is_upper c then char_of (of_char c + (32 :: nat)) else c)"

definition title_char :: "char \<Rightarrow> string" where
  "title_char c =
     (let n = (of_char c :: nat)
      in if n = 223 then ''Ss''
         else if (97 \<le> n \<and> n \<le> 122) \<or> (224 \<le> n \<and> n \<le> 246) \<or> (248 \<le> n \<and> n \<le> 254)
         then [char_of (n - 32)]
         else [c])"

text \<open>
  \<open>str.lower()\<close>, \<open>str.strip()\<close>, \<open>str.title()\<close>. In \<open>title_from prev s\<close>, \<open>prev\<close> tells
  whether the character before \<open>s\<close> is cased.
\<close>

definition lower :: "string \<Rightarrow> string" where
  "lower s = map lower_char s"

definition strip :: "string \<Rightarrow> string" where
  "strip s = rev (dropWhile is_space (rev (dropWhile is_space s)))"

fun title_from :: "bool \<Rightarrow> string \<Rightarrow> string" where
  "title_from prev [] = []"
| "title_from prev (c # cs) =
     (if prev then [lower_char c] else title_char c) @ title_from (is_cased c) cs"

definition title :: "string \<Rightarrow> string" where
  "title s = title_from False s"

text \<open>\<open>s.startswith(p)\<close> and the substring test \<open>p in s\<close>.\<close>

fun startswith :: "string \<Rightarrow> string \<Rightarrow> bool" where
  "startswith s [] = True"
| "startswith [] (p # ps) = False"
| "startswith (c # cs) (p # ps) = (c = p \<and> startswith cs ps)"

fun contains :: "string \<Rightarrow> string \<Rightarrow> bool" where
  "contains [] p = (p = [])"
| "contains (c # cs) p = (startswith (c # cs) p \<or> contains cs p)"

text \<open>
  \<open>s.split(sep)\<close>: the pieces between the non-overlapping occurrences of \<open>sep\<close>, found
  from the left; an empty separator raises \<open>ValueError\<close>. \<open>split_from sep cur s\<close> has
  \<open>cur\<close> as the piece collected so far.
\<close>

function split_from :: "string \<Rightarrow> string \<Rightarrow> string \<Rightarrow> string list" where
  "split_from sep cur [] = [cur]"
| "split_from sep cur (c # cs) =
     (if sep \<noteq> [] \<and> startswith (c # cs) sep
      then cur # split_from sep [] (drop (length sep - 1) cs)
      else split_from sep (cur @ [c]) cs)"
  by pat_completeness auto
termination
  by (relation "measure (\<lambda>(sep, cur, s). length s)") auto

definition split :: "string \<Rightarrow> string \<Rightarrow> py_exc + string list" where
  "split s sep = (if sep = [] then Inl ValueError else Inr (split_from sep [] s))"

section \<open>Regular expressions\<close>

text \<open>
  The patterns of this program are sequences of literals, single character classes,
  greedy repetitions of a character class, alternations of literals and capture
  groups (never nested). \<open>rx_run\<close> is a backtracking matcher with Python's priorities:
  alternatives are tried left to right, a repetition takes as many characters as it can
  and gives them back one at a time. It returns the number of characters matched and
  the spans of the groups in closing order.
\<close>

datatype atom =
    Lit string
  | Cls "char \<Rightarrow> bool"
  | Rep "char \<Rightarrow> bool" nat "nat option"
  | Alts "string list"
  | GOpen
  | GClose

fun atom_weight :: "atom \<Rightarrow> nat" where
  "atom_weight (Alts ls) = Suc (length ls)"
| "atom_weight a = 1"

function rx_run ::
  "atom list \<Rightarrow> string \<Rightarrow> nat \<Rightarrow> nat list \<Rightarrow> (nat \<times> nat) list \<Rightarrow> (nat \<times> (nat \<times> nat) list) option"
where
  "rx_run [] s pos st caps = Some (pos, caps)"
| "rx_run (Lit l # as) s pos st caps =
     (if startswith s l then rx_run as (drop (length l) s) (pos + length l) st caps else None)"
| "rx_run (Cls P # as) s pos st caps =
     (case s of [] \<Rightarrow> None
      | c # cs \<Rightarrow> if P c then rx_run as cs (Suc pos) st caps else None)"
| "rx_run (Rep P mn mx # as) s pos st caps =
     (let skip = (if mn = 0 then rx_run as s pos st caps else None)
      in case s of [] \<Rightarrow> skip
         | c # cs \<Rightarrow>
             if P c \<and> mx \<noteq> Some 0
             then (case rx_run (Rep P (mn - 1) (map_option (\<lambda>m. m - 1) mx) # as) cs (Suc pos) st caps of
                     Some r \<Rightarrow> Some r
                   | None \<Rightarrow> skip)
             else skip)"
| "rx_run (Alts [] # as) s pos st caps = None"
| "rx_run (Alts (l # ls) # as) s pos st caps =
     (case (if startswith s l then rx_run as (drop (length l) s) (pos + length l) st caps else None) of
        Some r \<Rightarrow> Some r
      | None \<Rightarrow> rx_run (Alts ls # as) s pos st caps)"
| "rx_run (GOpen # as) s pos st caps = rx_run as s pos (pos # st) caps"
| "rx_run (GClose # as) s pos st caps =
     (case st of [] \<Rightarrow> rx_run as s pos st caps
      | b # st' \<Rightarrow> rx_run as s pos st' (caps @ [(b, pos)]))"
  by pat_completeness auto
termination
  by (relation "measures [\<lambda>(as, s, pos, st, caps). length s,
                          \<lambda>(as, s, pos, st, caps). sum_list (map atom_weight as)]")
     (auto simp: less_Suc_eq_le)

text \<open>
  \<open>re.search\<close>: the match at the leftmost position where one exists, as the list of
  group 0 (the whole match) followed by the captured groups.
\<close>

fun re_search :: "atom list \<Rightarrow> string \<Rightarrow> string list option" where
  "re_search p s =
     (case rx_run p s 0 [] [] of
        Some (n, caps) \<Rightarrow> Some (take n s # map (\<lambda>(b, e). take (e - b) (drop b s)) caps)
      | None \<Rightarrow> (case s of [] \<Rightarrow> None | c # cs \<Rightarrow> re_search p cs))"

declare re_search.simps [simp del]

text \<open>
  \<open>re.sub\<close> with a literal replacement: scanning from the left, every match is replaced
  and the scan resumes behind it; where nothing matches the character is copied. An
  empty match is replaced and the next character copied.
\<close>

function re_sub :: "atom list \<Rightarrow> string \<Rightarrow> string \<Rightarrow> string" where
  "re_sub p repl [] = (case rx_run p [] 0 [] [] of Some r \<Rightarrow> repl | None \<Rightarrow> [])"
| "re_sub p repl (c # cs) =
     (case rx_run p (c # cs) 0 [] [] of
        None \<Rightarrow> c # re_sub p repl cs
      | Some (0, caps) \<Rightarrow> repl @ c # re_sub p repl cs
      | Some (Suc n, caps) \<Rightarrow> repl @ re_sub p repl (drop n cs))"
  by pat_completeness auto
termination
  by (relation "measure (\<lambda>(p, repl, s). length s)") auto

section \<open>Numbers\<close>

text \<open>\<open>str(n)\<close> for an integer, and the value of a string of decimal digits.\<close>

definition digit_char :: "nat \<Rightarrow> char" where
  "digit_char d = char_of (48 + d)"

definition digit_val :: "char \<Rightarrow> nat" where
  "digit_val c = of_char c - 48"

fun digits_of :: "nat \<Rightarrow> string" where
  "digits_of n = (if n < 10 then [digit_char n] else digits_of (n div 10) @ [digit_char (n mod 10)])"

declare digits_of.simps [simp del]

definition str_int :: "int \<Rightarrow> string" where
  "str_int i = (if i < 0 then CHR ''-'' # digits_of (nat (- i)) else digits_of (nat i))"

definition digits_val :: "string \<Rightarrow> nat" where
  "digits_val s = foldl (\<lambda>a c. 10 * a + digit_val c) 0 s"

text \<open>
  \<open>int(s)\<close> on a string of decimal digits; a string of more than 4300 digits raises
  \<open>ValueError\<close> (the interpreter's limit on integer string conversion), and so does a
  string that is not a numeral. The signed and padded forms \<open>int()\<close> also accepts never
  reach it here: its argument is always a match of \<open>\d+\<close>.
\<close>

definition int_max_str_digits :: nat where
  "int_max_str_digits = 4300"

definition py_int :: "string \<Rightarrow> py_exc + int" where
  "py_int s =
     (if s \<noteq> [] \<and> list_all is_digit s \<and> length s \<le> int_max_str_digits
      then Inr (int (digits_val s)) else Inl ValueError)"

text \<open>\<open>s.zfill(w)\<close> on an unsigned string.\<close>

definition zfill :: "nat \<Rightarrow> string \<Rightarrow> string" where
  "zfill w s = replicate (w - length s) CHR ''0'' @ s"

subsection \<open>Floats\<close>

text \<open>
  A Python float is an IEEE 754 double. Only non-negative values occur in this program
  (every float is parsed from an unsigned numeral), so a float is a non-negative
  rational that a double can hold, or positive infinity. \<open>round_double\<close> rounds a
  non-negative rational to the nearest double, ties to even: 53 significant bits, the
  exponent of the leading bit at least -1022 (below that the spacing stays
  \<open>2 ^ -1074\<close>), and infinity from \<open>2 ^ 1024\<close> on.
\<close>

datatype pyfloat = Fin rat | Inf

definition pow2 :: "int \<Rightarrow> rat" where
  "pow2 e = (if 0 \<le> e then 2 ^ nat e else 1 / 2 ^ nat (- e))"

definition round_half_even :: "rat \<Rightarrow> int" where
  "round_half_even q =
     (let f = \<lfloor>q\<rfloor>; r = q - of_int f
      in if r < 1 / 2 then f else if 1 / 2 < r then f + 1 else if even f then f else f + 1)"

function ilog2_up :: "rat \<Rightarrow> int" where
  "ilog2_up q = (if q < 2 then 0 else 1 + ilog2_up (q / 2))"
  by pat_completeness auto
termination
proof (relation "measure (\<lambda>q. nat \<lfloor>q\<rfloor>)")
  show "wf (measure (\<lambda>q::rat. nat \<lfloor>q\<rfloor>))" by simp
next
  fix q :: rat
  assume "\<not> q < 2"
  then have "\<lfloor>q / 2\<rfloor> < \<lfloor>q\<rfloor>" and "0 < \<lfloor>q\<rfloor>" by linarith+
  then show "(q / 2, q) \<in> measure (\<lambda>q. nat \<lfloor>q\<rfloor>)" by simp
qed

declare ilog2_up.simps [simp del]

function ilog2_down :: "rat \<Rightarrow> int" where
  "ilog2_down q = (if q \<le> 0 \<or> 1 \<le> q then 0 else ilog2_down (q * 2) - 1)"
  by pat_completeness auto
termination
proof (relation "measure (\<lambda>q. nat \<lfloor>1 / q\<rfloor>)")
  show "wf (measure (\<lambda>q::rat. nat \<lfloor>1 / q\<rfloor>))" by simp
next
  fix q :: rat
  assume "\<not> (q \<le> 0 \<or> 1 \<le> q)"
  then have q: "0 < q" "q < 1" by auto
  define x where "x = 1 / q"
  from q have x: "1 < x" by (simp add: x_def)
  have "1 / (q * 2) = x / 2" by (simp add: x_def)
  moreover have "\<lfloor>x / 2\<rfloor> < \<lfloor>x\<rfloor>"
  proof (cases "x < 2")
    case True
    with x have "\<lfloor>x / 2\<rfloor> = 0" and "\<lfloor>x\<rfloor> = 1" by (simp_all add: floor_unique)
    then show ?thesis by simp
  next
    case False
    then show ?thesis by linarith
  qed
  moreover from x have "0 < \<lfloor>x\<rfloor>" by linarith
  ultimately have "\<lfloor>1 / (q * 2)\<rfloor> < \<lfloor>1 / q\<rfloor>" and "0 < \<lfloor>1 / q\<rfloor>"
    by (simp_all add: x_def)
  then show "(q * 2, q) \<in> measure (\<lambda>q. nat \<lfloor>1 / q\<rfloor>)" by simp
qed

declare ilog2_down.simps [simp del]

text \<open>The exponent of the leading bit of a positive rational: \<open>2 ^ e \<le> q < 2 ^ (e + 1)\<close>.\<close>

definition ilog2 :: "rat \<Rightarrow> int" where
  "ilog2 q = (if 1 \<le> q then ilog2_up q else ilog2_down q)"

definition round_double :: "rat \<Rightarrow> pyfloat" where
  "round_double q =
     (if q \<le> 0 then Fin 0
      else let e = max (ilog2 q) (- 1022);
               u = pow2 (e - 52);
               v = of_int (round_half_even (q / u)) * u
           in if pow2 1024 \<le> v then Inf else Fin v)"

text \<open>Comparison, division and multiplication of floats (the divisor is never zero here).\<close>

fun float_le :: "pyfloat \<Rightarrow> pyfloat \<Rightarrow> bool" where
  "float_le (Fin a) (Fin b) = (a \<le> b)"
| "float_le (Fin a) Inf = True"
| "float_le Inf (Fin b) = False"
| "float_le Inf Inf = True"

definition float_lt :: "pyfloat \<Rightarrow> pyfloat \<Rightarrow> bool" where
  "float_lt a b = (\<not> float_le b a)"

fun float_div :: "pyfloat \<Rightarrow> pyfloat \<Rightarrow> pyfloat" where
  "float_div (Fin a) (Fin b) = round_double (a / b)"
| "float_div (Fin a) Inf = Fin 0"
| "float_div Inf b = Inf"

fun float_mul :: "pyfloat \<Rightarrow> pyfloat \<Rightarrow> pyfloat" where
  "float_mul (Fin a) (Fin b) = round_double (a * b)"
| "float_mul a b = Inf"

text \<open>
  \<open>float(s)\<close> on a numeral \<open>digits\<close>, \<open>digits.\<close> or \<open>digits.digits\<close>: the double nearest to
  its decimal value. Anything else raises \<open>ValueError\<close>; the signed, exponent and
  special forms \<open>float()\<close> also accepts never reach it here, its argument being a match
  of \<open>\d+\.?\d*\<close>.
\<close>

definition decimal_value :: "string \<Rightarrow> rat" where
  "decimal_value s =
     (let ip = takeWhile is_digit s; fp = drop (Suc (length ip)) s
      in of_nat (digits_val (ip @ fp)) / 10 ^ length fp)"

definition is_decimal :: "string \<Rightarrow> bool" where
  "is_decimal s =
     (let ip = takeWhile is_digit s; r = dropWhile is_digit s
      in ip \<noteq> [] \<and> (r = [] \<or> (hd r = CHR ''.'' \<and> list_all is_digit (tl r))))"

definition py_float :: "string \<Rightarrow> py_exc + pyfloat" where
  "py_float s = (if is_decimal s then Inr (round_double (decimal_value s)) else Inl ValueError)"

text \<open>
  The format specification \<open>.df\<close> with \<open>d > 0\<close>: the decimal numeral with \<open>d\<close> fraction
  digits nearest to the exact value of the double, ties to even.
\<close>

fun format_f :: "nat \<Rightarrow> pyfloat \<Rightarrow> string" where
  "format_f d (Fin v) =
     (let n = nat (round_half_even (v * 10 ^ d))
      in digits_of (n div 10 ^ d) @ CHR ''.'' # zfill d (digits_of (n mod 10 ^ d)))"
| "format_f d Inf = ''inf''"

section \<open>The cleaner (\<open>clean.py\<close>)\<close>

text \<open>A record, raw or cleaned, is a Python dict from field names to values.\<close>

type_synonym entry = "(string \<times> pyval) list"

text \<open>\<open>entry.get(k, d)\<close>.\<close>

definition entry_get :: "entry \<Rightarrow> string \<Rightarrow> pyval \<Rightarrow> pyval" where
  "entry_get e k d = (case map_of e k of None \<Rightarrow> d | Some v \<Rightarrow> v)"

subsection \<open>Field parsers\<close>

text \<open>The patterns \<open><[^>]+>\<close>, \<open>\s+\<close> and \<open>[^\w\s\-.,;:()&/]\<close>.\<close>

definition rx_tag :: "atom list" where
  "rx_tag = [Lit ''<'', Rep (\<lambda>c. c \<noteq> CHR ''>'') 1 None, Lit ''>'']"

definition rx_spaces :: "atom list" where
  "rx_spaces = [Rep is_space 1 None]"

definition is_kept :: "char \<Rightarrow> bool" where
  "is_kept c = (is_word c \<or> is_space c \<or> c \<in> set ''-.,;:()&/'')"

definition rx_special :: "atom list" where
  "rx_special = [Cls (\<lambda>c. \<not> is_kept c)]"

definition clean_text :: "pyval \<Rightarrow> py_exc + string" where
  "clean_text text =
     (if \<not> truthy text then Inr []
      else case text of
        PStr s \<Rightarrow>
          if strip s = [] then Inr []
          else Inr (re_sub rx_special [] (strip (re_sub rx_spaces '' '' (re_sub rx_tag [] s))))
      | _ \<Rightarrow> Inl AttributeError)"

definition standardize_decision_status :: "pyval \<Rightarrow> py_exc + string" where
  "standardize_decision_status status =
     (if \<not> truthy status then Inr []
      else case status of
        PStr s \<Rightarrow>
          (let st = strip (lower s)
           in Inr (if list_ex (contains st) [''accept'', ''admit''] then ''Accepted''
                   else if list_ex (contains st) [''reject'', ''den''] then ''Rejected''
                   else if list_ex (contains st) [''wait'', ''list''] then ''Waitlisted''
                   else if list_ex (contains st) [''interview''] then ''Interview''
                   else title st))
      | _ \<Rightarrow> Inl AttributeError)"

text \<open>
  The four date patterns, in the order of the source:
  \<open>(\d{1,2})\s+(\w{3})\s+(\d{4})\<close>, \<open>(\w{3})\s+(\d{1,2}),?\s+(\d{4})\<close>,
  \<open>(\d{1,2})/(\d{1,2})/(\d{4})\<close>, \<open>(\d{4})-(\d{1,2})-(\d{1,2})\<close>.
\<close>

definition date_patterns :: "atom list list" where
  "date_patterns =
     [[GOpen, Rep is_digit 1 (Some 2), GClose, Rep is_space 1 None,
       GOpen, Rep is_word 3 (Some 3), GClose, Rep is_space 1 None,
       GOpen, Rep is_digit 4 (Some 4), GClose],
      [GOpen, Rep is_word 3 (Some 3), GClose, Rep is_space 1 None,
       GOpen, Rep is_digit 1 (Some 2), GClose, Rep (\<lambda>c. c = CHR '','') 0 (Some 1), Rep is_space 1 None,
       GOpen, Rep is_digit 4 (Some 4), GClose],
      [GOpen, Rep is_digit 1 (Some 2), GClose, Lit ''/'',
       GOpen, Rep is_digit 1 (Some 2), GClose, Lit ''/'',
       GOpen, Rep is_digit 4 (Some 4), GClose],
      [GOpen, Rep is_digit 4 (Some 4), GClose, Lit ''-'',
       GOpen, Rep is_digit 1 (Some 2), GClose, Lit ''-'',
       GOpen, Rep is_digit 1 (Some 2), GClose]]"

text \<open>
  The reformatting of the groups of pattern \<open>k\<close>; \<open>None\<close> is the \<open>except: continue\<close> of the
  source (three groups that do not unpack), which goes on to the next pattern.
\<close>

fun format_date :: "nat \<Rightarrow> string list \<Rightarrow> string option" where
  "format_date k [a, b, c] =
     (if k = 0 then Some (a @ '' '' @ b @ '' '' @ c)
      else if k = 1 then Some (b @ '' '' @ a @ '' '' @ c)
      else if k = 2 then Some (zfill 2 b @ ''/'' @ zfill 2 a @ ''/'' @ c)
      else if k = 3 then Some (c @ ''/'' @ b @ ''/'' @ a)
      else None)"
| "format_date k gs = None"

fun date_loop :: "(nat \<times> atom list) list \<Rightarrow> string \<Rightarrow> string" where
  "date_loop [] d = d"
| "date_loop ((k, p) # ps) d =
     (case re_search p d of
        None \<Rightarrow> date_loop ps d
      | Some gs \<Rightarrow> (case format_date k (tl gs) of Some r \<Rightarrow> r | None \<Rightarrow> date_loop ps d))"

definition clean_date :: "pyval \<Rightarrow> py_exc + string" where
  "clean_date date_str =
     (if \<not> truthy date_str then Inr []
      else and_then (clean_text date_str)
             (\<lambda>d. Inr (date_loop (zip [0 ..< length date_patterns] date_patterns) d)))"

text \<open>The patterns \<open>(\d+\.?\d*)\<close>, \<open>(\d+)\<close> and \<open>(20\d{2})\<close>.\<close>

definition rx_decimal :: "atom list" where
  "rx_decimal = [GOpen, Rep is_digit 1 None, Rep (\<lambda>c. c = CHR ''.'') 0 (Some 1),
                 Rep is_digit 0 None, GClose]"

definition rx_digits :: "atom list" where
  "rx_digits = [GOpen, Rep is_digit 1 None, GClose]"

definition rx_year :: "atom list" where
  "rx_year = [GOpen, Lit ''20'', Rep is_digit 2 (Some 2), GClose]"

text \<open>\<open>except ValueError: pass\<close> around a computation that ends in \<open>return\<close>.\<close>

definition except_ValueError :: "py_exc + string \<Rightarrow> py_exc + string" where
  "except_ValueError m = (case m of Inl e \<Rightarrow> if e = ValueError then Inr [] else Inl e | Inr v \<Rightarrow> Inr v)"

definition clean_gpa :: "pyval \<Rightarrow> py_exc + string" where
  "clean_gpa gpa_str =
     (if \<not> truthy gpa_str then Inr []
      else and_then (clean_text gpa_str) (\<lambda>t.
        case re_search rx_decimal t of
          Some (g0 # g1 # gs) \<Rightarrow>
            except_ValueError (and_then (py_float g1) (\<lambda>gpa_value.
              if float_le (Fin 0) gpa_value \<and> float_le gpa_value (Fin 4)
              then Inr (format_f 2 gpa_value)
              else if float_lt (Fin 4) gpa_value \<and> float_le gpa_value (Fin 10)
              then Inr (format_f 2 (float_mul (float_div gpa_value (Fin 10)) (Fin 4)))
              else Inr []))
        | _ \<Rightarrow> Inr []))"

definition clean_gre_score :: "pyval \<Rightarrow> py_exc + string" where
  "clean_gre_score score_str =
     (if \<not> truthy score_str then Inr []
      else and_then (clean_text score_str) (\<lambda>t.
        case re_search rx_digits t of
          Some (g0 # g1 # gs) \<Rightarrow>
            except_ValueError (and_then (py_int g1) (\<lambda>score.
              if 130 \<le> score \<and> score \<le> 170 then Inr (str_int score)
              else if 200 \<le> score \<and> score \<le> 800 then Inr (str_int score)
              else Inr []))
        | _ \<Rightarrow> Inr []))"

definition clean_gre_aw :: "pyval \<Rightarrow> py_exc + string" where
  "clean_gre_aw aw_str =
     (if \<not> truthy aw_str then Inr []
      else and_then (clean_text aw_str) (\<lambda>t.
        case re_search rx_decimal t of
          Some (g0 # g1 # gs) \<Rightarrow>
            except_ValueError (and_then (py_float g1) (\<lambda>aw_score.
              if float_le (Fin 0) aw_score \<and> float_le aw_score (Fin 6)
              then Inr (format_f 1 aw_score)
              else Inr []))
        | _ \<Rightarrow> Inr []))"

definition clean_degree_type :: "pyval \<Rightarrow> py_exc + string" where
  "clean_degree_type degree_str =
     (if \<not> truthy degree_str then Inr []
      else and_then (clean_text degree_str) (\<lambda>t.
        let d = lower t
        in Inr (if list_ex (contains d) [''phd'', ''ph.d'', ''doctorate'', ''doctoral''] then ''PhD''
                else if list_ex (contains d) [''masters'', ''master'', ''ms'', ''m.s'', ''ma'', ''m.a'']
                then ''Masters''
                else if list_ex (contains d) [''bachelor'', ''undergrad'', ''bs'', ''ba''] then ''Bachelors''
                else title d)))"

text \<open>The result dict \<open>{"semester": ..., "year": ...}\<close> is the pair (semester, year).\<close>

definition clean_semester_year :: "pyval \<Rightarrow> py_exc + string \<times> string" where
  "clean_semester_year semester_year_str =
     (if \<not> truthy semester_year_str then Inr ([], [])
      else and_then (clean_text semester_year_str) (\<lambda>t.
        let sy = lower t;
            year = (case re_search rx_year sy of Some (g0 # g1 # gs) \<Rightarrow> g1 | _ \<Rightarrow> []);
            semester =
              (if list_ex (contains sy) [''fall'', ''autumn''] then ''Fall''
               else if list_ex (contains sy) [''spring''] then ''Spring''
               else if list_ex (contains sy) [''summer''] then ''Summer''
               else if list_ex (contains sy) [''winter''] then ''Winter''
               else [])
        in Inr (semester, year)))"

subsection \<open>Validation and the cleaning of one record\<close>

text \<open>
  \<open>_validate_entry\<close>: every required field must be present, truthy and not blank.
  \<open>validate_fields\<close> is its loop over the required fields.
\<close>

fun validate_fields :: "entry \<Rightarrow> string list \<Rightarrow> py_exc + bool" where
  "validate_fields e [] = Inr True"
| "validate_fields e (f # fs) =
     (case map_of e f of
        None \<Rightarrow> Inr False
      | Some v \<Rightarrow>
          if \<not> truthy v then Inr False
          else (case v of
                  PStr s \<Rightarrow> if strip s = [] then Inr False else validate_fields e fs
                | _ \<Rightarrow> Inl AttributeError))"

definition validate_entry :: "entry \<Rightarrow> py_exc + bool" where
  "validate_entry e = validate_fields e [''university'', ''program_name'']"

text \<open>The test \<open>k in v\<close> for a string \<open>k\<close>.\<close>

fun py_in :: "string \<Rightarrow> pyval \<Rightarrow> py_exc + bool" where
  "py_in k (PStr s) = Inr (contains s k)"
| "py_in k (PList xs) = Inr (PStr k \<in> set xs)"
| "py_in k (PDict kvs) = Inr (k \<in> set (map fst kvs))"
| "py_in k v = Inl TypeError"

text \<open>
  The argument the source passes to \<open>_clean_gre_score\<close> for the quantitative score:
  \<open>gre_score.split('Q:')[-1].split(',')[0] if 'Q:' in gre_score else ''\<close>.
\<close>

definition gre_quant_text :: "pyval \<Rightarrow> py_exc + string" where
  "gre_quant_text gre_score =
     and_then (py_in ''Q:'' gre_score) (\<lambda>has_q.
       if has_q
       then (case gre_score of
               PStr s \<Rightarrow>
                 and_then (split s ''Q:'') (\<lambda>parts.
                   if parts = [] then Inl IndexError
                   else and_then (split (last parts) '','') (\<lambda>ps.
                     case ps of [] \<Rightarrow> Inl IndexError | p # _ \<Rightarrow> Inr p))
             | _ \<Rightarrow> Inl AttributeError)
       else Inr [])"

text \<open>The body of the \<open>try\<close> in \<open>clean_entry\<close>, and \<open>clean_entry\<close> with its \<open>except Exception\<close>.\<close>

definition clean_entry_try :: "entry \<Rightarrow> py_exc + entry option" where
  "clean_entry_try entry =
     and_then (clean_text (entry_get entry ''program_name'' (PStr []))) (\<lambda>program_name.
     and_then (clean_text (entry_get entry ''university'' (PStr []))) (\<lambda>university.
     and_then (clean_text (entry_get entry ''comments'' (PStr []))) (\<lambda>comments.
     let url = entry_get entry ''url'' (PStr []) in
     and_then (standardize_decision_status (entry_get entry ''applicant_status'' (PStr []))) (\<lambda>applicant_status.
     and_then (clean_date (entry_get entry ''date_added'' (PStr []))) (\<lambda>date_added.
     and_then (clean_date (entry_get entry ''acceptance_date'' (PStr []))) (\<lambda>acceptance_date.
     and_then (clean_date (entry_get entry ''rejection_date'' (PStr []))) (\<lambda>rejection_date.
     and_then (clean_semester_year (entry_get entry ''semester_year'' (PStr []))) (\<lambda>semester_year_info.
     and_then (clean_text (entry_get entry ''international_american'' (PStr []))) (\<lambda>intl_status.
     let international_american =
           (if lower intl_status \<in> set [''international'', ''foreign''] then ''International''
            else if lower intl_status \<in> set [''domestic'', ''american'', ''usa'', ''us''] then ''American''
            else []) in
     and_then (clean_gpa (entry_get entry ''gpa'' (PStr []))) (\<lambda>gpa.
     and_then (clean_gre_score (entry_get entry ''gre_verbal'' (PStr []))) (\<lambda>gre_verbal.
     and_then (gre_quant_text (entry_get entry ''gre_score'' (PStr []))) (\<lambda>quant_text.
     and_then (clean_gre_score (PStr quant_text)) (\<lambda>gre_quantitative.
     and_then (clean_gre_aw (entry_get entry ''gre_aw'' (PStr []))) (\<lambda>gre_aw.
     and_then (clean_degree_type (entry_get entry ''degree_type'' (PStr []))) (\<lambda>degree_type.
     let cleaned_entry =
           [(''program_name'', PStr program_name),
            (''university'', PStr university),
            (''comments'', PStr comments),
            (''url'', url),
            (''applicant_status'', PStr applicant_status),
            (''date_added'', PStr date_added),
            (''acceptance_date'', PStr acceptance_date),
            (''rejection_date'', PStr rejection_date),
            (''semester'', PStr (fst semester_year_info)),
            (''year'', PStr (snd semester_year_info)),
            (''international_american'', PStr international_american),
            (''gpa'', PStr gpa),
            (''gre_verbal'', PStr gre_verbal),
            (''gre_quantitative'', PStr gre_quantitative),
            (''gre_aw'', PStr gre_aw),
            (''degree_type'', PStr degree_type)] in
     and_then (validate_entry cleaned_entry) (\<lambda>valid.
       Inr (if \<not> valid then None else Some cleaned_entry)))))))))))))))))"

definition clean_entry :: "entry \<Rightarrow> entry option" where
  "clean_entry entry = (case clean_entry_try entry of Inl e \<Rightarrow> None | Inr r \<Rightarrow> r)"

subsection \<open>The cleaner object and \<open>clean_data\<close>\<close>

text \<open>
  The state of a \<open>GradCafeDataCleaner\<close>: \<open>cleaned_data\<close> and the three counters of
  \<open>cleaning_stats\<close> (its fourth key, \<open>fields_cleaned\<close>, is never written).
\<close>

record cleaner =
  cleaned_data :: "entry list"
  total_entries :: nat
  cleaned_entries :: nat
  removed_entries :: nat

definition new_cleaner :: cleaner where
  "new_cleaner = \<lparr>cleaned_data = [], total_entries = 0, cleaned_entries = 0, removed_entries = 0\<rparr>"

text \<open>One iteration of the loop of \<open>clean_data\<close>; \<open>if cleaned_entry\<close> tests a dict or \<open>None\<close>.\<close>

definition clean_step :: "cleaner \<Rightarrow> entry \<Rightarrow> cleaner" where
  "clean_step c entry =
     (case clean_entry entry of
        Some cleaned_entry \<Rightarrow>
          if cleaned_entry \<noteq> []
          then c\<lparr>cleaned_data := cleaned_data c @ [cleaned_entry],
                 cleaned_entries := cleaned_entries c + 1\<rparr>
          else c\<lparr>removed_entries := removed_entries c + 1\<rparr>
      | None \<Rightarrow> c\<lparr>removed_entries := removed_entries c + 1\<rparr>)"

fun clean_loop :: "cleaner \<Rightarrow> entry list \<Rightarrow> cleaner" where
  "clean_loop c [] = c"
| "clean_loop c (entry # rest) = clean_loop (clean_step c entry) rest"

text \<open>\<open>clean_data\<close> returns the cleaned records; the second component is the cleaner afterwards.\<close>

definition clean_data :: "cleaner \<Rightarrow> entry list \<Rightarrow> entry list \<times> cleaner" where
  "clean_data c raw_data =
     (let c' = clean_loop (c\<lparr>total_entries := length raw_data, cleaned_data := []\<rparr>) raw_data
      in (cleaned_data c', c'))"

section \<open>The scraper (\<open>scrape.py\<close>)\<close>

text \<open>
  What the scraper reads of a table row (a \<open><tr>\<close> element of the parsed page): the
  stripped text of each of its \<open><td>\<close> cells, the \<open>href\<close> attribute of each of its links
  (\<open>None\<close> where a link has none) and the stripped text of the whole row.
\<close>

record row =
  cells :: "string list"
  links :: "string option list"
  row_text :: string

definition degree_keywords :: "string list" where
  "degree_keywords = [''Masters'', ''PhD'', ''MS'', ''MA'', ''Doctorate'', ''Bachelors'', ''BS'', ''BA'']"

text \<open>
  The loop over the degree keywords: the first keyword that occurs in the program text
  splits it; the result is \<open>(program_name, degree_type)\<close>, both empty when no keyword
  occurs.
\<close>

fun split_degree :: "string list \<Rightarrow> string \<Rightarrow> py_exc + string \<times> string" where
  "split_degree [] program_text = Inr ([], [])"
| "split_degree (degree # rest) program_text =
     (if contains program_text degree
      then (case split program_text degree of
              Inl e \<Rightarrow> Inl e
            | Inr parts \<Rightarrow>
                if 2 \<le> length parts then Inr (strip (hd parts), degree)
                else split_degree rest program_text)
      else split_degree rest program_text)"

text \<open>
  The patterns \<open>(Accepted|Rejected|Waitlisted|Interview)\s+on\s+(.+)\<close>,
  \<open>(Fall|Spring|Summer|Winter)\s+(\d{4})\<close>, \<open>GPA\s+([\d.]+)\<close>, \<open>GRE\s+V[:\s]*([\d]+)\<close>,
  \<open>GRE\s+Q[:\s]*([\d]+)\<close> and \<open>GRE\s+AW[:\s]*([\d.]+)\<close>.
\<close>

definition rx_decision :: "atom list" where
  "rx_decision =
     [GOpen, Alts [''Accepted'', ''Rejected'', ''Waitlisted'', ''Interview''], GClose,
      Rep is_space 1 None, Lit ''on'', Rep is_space 1 None,
      GOpen, Rep (\<lambda>c. c \<noteq> CHR 0x0A) 1 None, GClose]"

definition rx_semester :: "atom list" where
  "rx_semester =
     [GOpen, Alts [''Fall'', ''Spring'', ''Summer'', ''Winter''], GClose,
      Rep is_space 1 None, GOpen, Rep is_digit 4 (Some 4), GClose]"

definition rx_gpa :: "atom list" where
  "rx_gpa = [Lit ''GPA'', Rep is_space 1 None,
             GOpen, Rep (\<lambda>c. is_digit c \<or> c = CHR ''.'') 1 None, GClose]"

definition rx_gre :: "string \<Rightarrow> (char \<Rightarrow> bool) \<Rightarrow> atom list" where
  "rx_gre part cls =
     [Lit ''GRE'', Rep is_space 1 None, Lit part, Rep (\<lambda>c. c = CHR '':'' \<or> is_space c) 0 None,
      GOpen, Rep cls 1 None, GClose]"

text \<open>Group 1 of the first match, or the empty string the field was initialised with.\<close>

definition group1_or_empty :: "atom list \<Rightarrow> string \<Rightarrow> string" where
  "group1_or_empty p s = (case re_search p s of Some (g0 # g1 # gs) \<Rightarrow> g1 | _ \<Rightarrow> [])"

text \<open>
  The loop over the links of the row. \<open>urljoin\<close> is the library function
  \<open>urllib.parse.urljoin\<close>, a parameter of the model: it returns the joined URL or raises
  (\<open>ValueError\<close> on a reference it cannot parse, such as \<open>//[result\<close>).
\<close>

fun entry_url ::
  "(string \<Rightarrow> string \<Rightarrow> py_exc + string) \<Rightarrow> string \<Rightarrow> string option list \<Rightarrow> py_exc + string"
where
  "entry_url urljoin base_url [] = Inr []"
| "entry_url urljoin base_url (href # rest) =
     (case href of
        None \<Rightarrow> entry_url urljoin base_url rest
      | Some h \<Rightarrow>
          if h \<noteq> [] \<and> contains h ''result''
          then (if startswith h ''/'' then urljoin base_url h else Inr h)
          else entry_url urljoin base_url rest)"

definition base_url :: string where
  "base_url = ''https://www.thegradcafe.com''"

text \<open>
  The body of the \<open>try\<close> in \<open>_extract_entry_data\<close>, and \<open>_extract_entry_data\<close> with its
  \<open>except Exception\<close>, which turns every exception of the body into \<open>None\<close>.
\<close>

definition extract_entry_try ::
  "(string \<Rightarrow> string \<Rightarrow> py_exc + string) \<Rightarrow> row \<Rightarrow> row option \<Rightarrow> py_exc + entry option"
where
  "extract_entry_try urljoin r next_row =
     (case cells r of
        institution # program_text # date_added # decision_text # others \<Rightarrow>
          and_then (if program_text \<noteq> [] then split_degree degree_keywords program_text
                    else Inr ([], [])) (\<lambda>(split_name, degree_type).
          let program_name =
                (if program_text \<noteq> [] \<and> split_name = [] then program_text else split_name);
              decision_match = (if decision_text \<noteq> [] then re_search rx_decision decision_text else None);
              decision_status =
                (case decision_match of Some (g0 # g1 # g2 # gs) \<Rightarrow> g1 | _ \<Rightarrow> decision_text);
              decision_date =
                (case decision_match of Some (g0 # g1 # g2 # gs) \<Rightarrow> g2 | _ \<Rightarrow> [])
          in and_then (entry_url urljoin base_url (links r)) (\<lambda>url.
          let has_detail = (case next_row of Some n \<Rightarrow> length (cells n) = 1 | None \<Rightarrow> False);
              detail_text = (case next_row of Some n \<Rightarrow> row_text n | None \<Rightarrow> []);
              semester_year =
                (if has_detail
                 then (case re_search rx_semester detail_text of
                         Some (g0 # g1 # g2 # gs) \<Rightarrow> g1 @ '' '' @ g2 | _ \<Rightarrow> [])
                 else []);
              international_status =
                (if has_detail
                 then (if contains detail_text ''International'' then ''International''
                       else if contains detail_text ''American'' \<or> contains detail_text ''Domestic''
                       then ''American'' else [])
                 else []);
              gpa = (if has_detail then group1_or_empty rx_gpa detail_text else []);
              gre_verbal = (if has_detail then group1_or_empty (rx_gre ''V'' is_digit) detail_text else []);
              gre_quant = (if has_detail then group1_or_empty (rx_gre ''Q'' is_digit) detail_text else []);
              gre_aw =
                (if has_detail
                 then group1_or_empty (rx_gre ''AW'' (\<lambda>c. is_digit c \<or> c = CHR ''.'')) detail_text
                 else []);
              comments = []
          in Inr (Some
               [(''program_name'', PStr program_name),
                (''university'', PStr institution),
                (''comments'', PStr comments),
                (''date_added'', PStr date_added),
                (''url'', PStr url),
                (''applicant_status'', PStr decision_status),
                (''acceptance_date'', PStr (if lower decision_status = ''accepted'' then decision_date else [])),
                (''rejection_date'', PStr (if lower decision_status = ''rejected'' then decision_date else [])),
                (''semester_year'', PStr semester_year),
                (''international_american'', PStr international_status),
                (''gre_score'', PStr (if gre_verbal \<noteq> [] \<or> gre_quant \<noteq> []
                                      then ''V:'' @ gre_verbal @ '', Q:'' @ gre_quant else [])),
                (''gre_verbal'', PStr gre_verbal),
                (''degree_type'', PStr degree_type),
                (''gpa'', PStr gpa),
                (''gre_aw'', PStr gre_aw)])))
      | _ \<Rightarrow> Inr None)"

definition extract_entry_data ::
  "(string \<Rightarrow> string \<Rightarrow> py_exc + string) \<Rightarrow> row \<Rightarrow> row option \<Rightarrow> entry option"
where
  "extract_entry_data urljoin r next_row =
     (case extract_entry_try urljoin r next_row of Inl e \<Rightarrow> None | Inr res \<Rightarrow> res)"

text \<open>
  The \<open>while i < len(rows)\<close> loop of \<open>_scrape_page\<close>, over the rows behind the header.
\<close>

function scrape_rows_from ::
  "(string \<Rightarrow> string \<Rightarrow> py_exc + string) \<Rightarrow> row list \<Rightarrow> nat \<Rightarrow> entry list \<Rightarrow> entry list"
where
  "scrape_rows_from urljoin rows i page_data =
     (if i < length rows
      then (if 4 \<le> length (cells (rows ! i))
            then (if i + 1 < length rows \<and> length (cells (rows ! (i + 1))) = 1
                  then scrape_rows_from urljoin rows (i + 1 + 1)
                         (case extract_entry_data urljoin (rows ! i) (Some (rows ! (i + 1))) of
                            Some entry_data \<Rightarrow>
                              if entry_data \<noteq> [] then page_data @ [entry_data] else page_data
                          | None \<Rightarrow> page_data)
                  else scrape_rows_from urljoin rows (i + 1)
                         (case extract_entry_data urljoin (rows ! i) None of
                            Some entry_data \<Rightarrow>
                              if entry_data \<noteq> [] then page_data @ [entry_data] else page_data
                          | None \<Rightarrow> page_data))
            else scrape_rows_from urljoin rows (i + 1) page_data)
      else page_data)"
  by pat_completeness auto
termination
  by (relation "measure (\<lambda>(urljoin, rows, i, page_data). length rows - i)") auto

declare scrape_rows_from.simps [simp del]

text \<open>
  \<open>_scrape_page\<close> on what came back for the page: no body, a body without a table, or
  the \<open><tr>\<close> rows of the first table (the header row included).
\<close>

datatype response = NoContent | NoTable | Table "row list"

definition scrape_page ::
  "(string \<Rightarrow> string \<Rightarrow> py_exc + string) \<Rightarrow> response \<Rightarrow> entry list"
where
  "scrape_page urljoin resp =
     (case resp of
        NoContent \<Rightarrow> []
      | NoTable \<Rightarrow> []
      | Table trs \<Rightarrow> scrape_rows_from urljoin (drop 1 trs) 0 [])"

text \<open>
  The loop of \<open>scrape_data\<close>. \<open>page_of n\<close> is what \<open>_scrape_page(n)\<close> returns; the result
  is \<open>scraped_data\<close> together with the page numbers requested, in order.
\<close>

function scrape_loop ::
  "(nat \<Rightarrow> entry list) \<Rightarrow> int \<Rightarrow> nat \<Rightarrow> nat \<Rightarrow> entry list \<Rightarrow> nat list \<Rightarrow> entry list \<times> nat list"
where
  "scrape_loop page_of max_entries page_num total_count scraped fetched =
     (if int total_count < max_entries
      then (if page_of page_num = [] then (scraped, fetched @ [page_num])
            else if max_entries \<le> int (total_count + length (page_of page_num))
            then (scraped @ page_of page_num, fetched @ [page_num])
            else if page_num + 1 > 1000
            then (scraped @ page_of page_num, fetched @ [page_num])
            else scrape_loop page_of max_entries (page_num + 1) (total_count + length (page_of page_num))
                   (scraped @ page_of page_num) (fetched @ [page_num]))
      else (scraped, fetched))"
  by pat_completeness auto
termination
  by (relation "measure (\<lambda>(page_of, max_entries, page_num, total_count, scraped, fetched). 1001 - page_num)")
     auto

declare scrape_loop.simps [simp del]

text \<open>
  \<open>scrape_data\<close>: \<open>robots_ok\<close> is the result of \<open>_check_robots_txt\<close>, \<open>scraped\<close> the
  \<open>scraped_data\<close> the scraper object holds at the call.
\<close>

definition scrape_data ::
  "bool \<Rightarrow> (nat \<Rightarrow> entry list) \<Rightarrow> int \<Rightarrow> entry list \<Rightarrow> entry list \<times> nat list"
where
  "scrape_data robots_ok page_of max_entries scraped =
     (if \<not> robots_ok then ([], []) else scrape_loop page_of max_entries 1 0 scraped [])"

section \<open>Sample inputs\<close>

definition sample_entry :: entry where
  "sample_entry = [(''program_name'', PStr ''CS''), (''university'', PStr ''MIT'')]"

section \<open>Notions used in the statements\<close>

text \<open>
  The number of records on pages \<open>1 .. j\<close>, and the three conditions that end the
  scraping loop behind page \<open>j\<close>: an empty page, the target reached, or the page counter
  moving past 1000.
\<close>

definition pages_total :: "(nat \<Rightarrow> entry list) \<Rightarrow> nat \<Rightarrow> nat" where
  "pages_total page_of j = sum_list (map (\<lambda>i. length (page_of i)) [1 ..< Suc j])"

definition stops_at :: "(nat \<Rightarrow> entry list) \<Rightarrow> int \<Rightarrow> nat \<Rightarrow> bool" where
  "stops_at page_of max_entries j =
     (page_of j = [] \<or> max_entries \<le> int (pages_total page_of j) \<or> 1000 \<le> j)"

definition is_primary :: "row \<Rightarrow> bool" where
  "is_primary r = (4 \<le> length (cells r))"

definition detail_row_of :: "row list \<Rightarrow> nat \<Rightarrow> row option" where
  "detail_row_of rows i =
     (if i + 1 < length rows \<and> length (cells (rows ! (i + 1))) = 1 then Some (rows ! (i + 1)) else None)"

definition program_name_of :: "string \<Rightarrow> string" where
  "program_name_of program_text =
     (case find (contains program_text) degree_keywords of
        None \<Rightarrow> program_text
      | Some degree \<Rightarrow>
          if strip (hd (split_from degree [] program_text)) = [] then program_text
          else strip (hd (split_from degree [] program_text)))"

text \<open>
  Whether the result link of a row can be made into the record's URL, that is, whether
  the loop over the links ends without \<open>urljoin\<close> raising; and what extraction returns
  for row \<open>i\<close> taken with its detail row.
\<close>

definition joins :: "(string \<Rightarrow> string \<Rightarrow> py_exc + string) \<Rightarrow> row \<Rightarrow> bool" where
  "joins urljoin r = (case entry_url urljoin base_url (links r) of Inl x \<Rightarrow> False | Inr u \<Rightarrow> True)"

definition record_of ::
  "(string \<Rightarrow> string \<Rightarrow> py_exc + string) \<Rightarrow> row list \<Rightarrow> nat \<Rightarrow> entry option"
where
  "record_of urljoin rows i = extract_entry_data urljoin (rows ! i) (detail_row_of rows i)"

text \<open>
  The values of \<open>urllib.parse.urljoin\<close> on the references of the sample rows. A reference
  that starts with \<open>//\<close> names a host, up to the next \<open>/\<close>, \<open>?\<close> or \<open>#\<close>; when just one of the
  brackets \<open>[\<close> and \<open>]\<close> occurs in the host, \<open>urljoin\<close> raises \<open>ValueError\<close> (Invalid IPv6
  URL), and otherwise the reference takes the scheme of the base. A plain absolute path
  is put behind the base.
\<close>

definition sample_urljoin :: "string \<Rightarrow> string \<Rightarrow> py_exc + string" where
  "sample_urljoin b h =
     (if startswith h ''//''
      then (let netloc = takeWhile (\<lambda>c. c \<noteq> CHR ''/'' \<and> c \<noteq> CHR ''?'' \<and> c \<noteq> CHR ''#'') (drop 2 h)
            in if (CHR ''['' \<in> set netloc) \<noteq> (CHR '']'' \<in> set netloc) then Inl ValueError
               else Inr (takeWhile (\<lambda>c. c \<noteq> CHR '':'') b @ '':'' @ h))
      else Inr (b @ h))"

definition sample_primary :: row where
  "sample_primary = \<lparr>cells = [''MIT'', ''Biomedical EngineeringMasters'', ''12 Jan'', ''Accepted on 1 Jun''],
                      links = [Some ''/result/1''], row_text = ''MIT''\<rparr>"

definition sample_detail :: row where
  "sample_detail = \<lparr>cells = [''Fall 2025 International GPA 3.8 GRE V:165 GRE Q:160''],
                     links = [],
                     row_text = ''Fall 2025 International GPA 3.8 GRE V:165 GRE Q:160''\<rparr>"

definition sample_phd :: row where
  "sample_phd = \<lparr>cells = [''CMU'', ''PhD'', ''12 Jan'', ''Rejected''], links = [], row_text = ''CMU''\<rparr>"

definition sample_short :: row where
  "sample_short = \<lparr>cells = [''a'', ''b''], links = [], row_text = ''ab''\<rparr>"

definition sample_unjoinable :: row where
  "sample_unjoinable = \<lparr>cells = [''MIT'', ''CS'', ''12 Jan'', ''Accepted''],
                         links = [Some ''//[result''], row_text = ''MIT''\<rparr>"

definition sample_rows :: "row list" where
  "sample_rows = [sample_short, sample_primary, sample_detail, sample_detail, sample_short,
                  sample_phd, sample_primary, sample_unjoinable]"

fun is_str :: "pyval \<Rightarrow> bool" where
  "is_str (PStr s) = True"
| "is_str v = False"

definition string_valued :: "entry \<Rightarrow> bool" where
  "string_valued e = list_all (\<lambda>kv. is_str (snd kv)) e"

definition field_text :: "entry \<Rightarrow> string \<Rightarrow> string" where
  "field_text e k = (case entry_get e k (PStr []) of PStr s \<Rightarrow> s | _ \<Rightarrow> [])"

definition cleaned_text :: "string \<Rightarrow> string" where
  "cleaned_text s = (case clean_text (PStr s) of Inr t \<Rightarrow> t | Inl x \<Rightarrow> [])"

definition admitted :: "entry \<Rightarrow> bool" where
  "admitted e = (strip (cleaned_text (field_text e ''university'')) \<noteq> []
                 \<and> strip (cleaned_text (field_text e ''program_name'')) \<noteq> [])"

definition sample_blank :: entry where
  "sample_blank = [(''university'', PStr ''# #''), (''program_name'', PStr ''CS'')]"

definition sample_bad :: entry where
  "sample_bad = [(''program_name'', PStr ''CS''), (''university'', PNum 5)]"

definition decision_spec :: "string \<Rightarrow> string" where
  "decision_spec s =
     (if contains (lower s) ''accept'' \<or> contains (lower s) ''admit'' then ''Accepted''
      else if contains (lower s) ''reject'' \<or> contains (lower s) ''den'' then ''Rejected''
      else if contains (lower s) ''wait'' \<or> contains (lower s) ''list'' then ''Waitlisted''
      else if contains (lower s) ''interview'' then ''Interview''
      else title (strip (lower s)))"




section \<open>Properties of the cleaning statistics\<close>

lemma clean_step_counts:
  "cleaned_entries (clean_step c e) + removed_entries (clean_step c e)
     = Suc (cleaned_entries c + removed_entries c)
   \<and> total_entries (clean_step c e) = total_entries c"
  by (simp add: clean_step_def split: option.split)

lemma clean_loop_counts:
  "cleaned_entries (clean_loop c raw) + removed_entries (clean_loop c raw)
     = cleaned_entries c + removed_entries c + length raw
   \<and> total_entries (clean_loop c raw) = total_entries c"
  by (induction raw arbitrary: c) (simp_all add: clean_step_counts)

text \<open>
  Every record increments exactly one of the two counters, and \<open>total_entries\<close> is set to
  the length of the input; the two counters, however, start from whatever the cleaner
  held before the run.
\<close>

lemma clean_data_counts:
  "total_entries (snd (clean_data c raw)) = length raw \<and>
   cleaned_entries (snd (clean_data c raw)) + removed_entries (snd (clean_data c raw))
     = cleaned_entries c + removed_entries c + length raw"
  by (simp add: clean_data_def Let_def clean_loop_counts)

lemma clean_data_counts_new:
  "cleaned_entries (snd (clean_data new_cleaner raw)) + removed_entries (snd (clean_data new_cleaner raw))
     = total_entries (snd (clean_data new_cleaner raw))"
  by (simp add: clean_data_counts) (simp add: new_cleaner_def)

lemma sample_entry_clean:
  "clean_entry sample_entry \<noteq> None \<and> clean_entry sample_entry \<noteq> Some []"
  by code_simp

text \<open>
  Claim C2. After \<open>clean_data\<close> the statistics should satisfy
  \<open>cleaned_entries + removed_entries = total_entries\<close>, also on a second run of the same
  cleaner. On a second run over one valid record the cleaner ends with
  \<open>total_entries = 1\<close> but \<open>cleaned_entries = 2\<close>: \<open>clean_data\<close> resets \<open>total_entries\<close>
  and \<open>cleaned_data\<close> and keeps adding to the two counters.
\<close>

theorem clean_data_second_run_counts:
  "total_entries (snd (clean_data (snd (clean_data new_cleaner [sample_entry])) [sample_entry])) = 1
   \<and> cleaned_entries (snd (clean_data (snd (clean_data new_cleaner [sample_entry])) [sample_entry])) = 2
   \<and> removed_entries (snd (clean_data (snd (clean_data new_cleaner [sample_entry])) [sample_entry])) = 0"
  using sample_entry_clean
  by (auto simp add: clean_data_def Let_def clean_step_def new_cleaner_def split: option.split)

section \<open>Properties of the scraping loop\<close>

lemma pages_total_Suc: "pages_total p (Suc j) = pages_total p j + length (p (Suc j))"
  by (simp add: pages_total_def)

lemma scrape_loop_trace:
  assumes "1 \<le> n" "n \<le> 1000" "tot0 = pages_total page_of (n - 1)" "int tot0 < mx"
    and "\<forall>j. 1 \<le> j \<and> j < n \<longrightarrow> \<not> stops_at page_of mx j"
  shows "\<exists>k. n \<le> k \<and> k \<le> 1000
            \<and> scrape_loop page_of mx n tot0 sc f = (sc @ concat (map page_of [n ..< Suc k]), f @ [n ..< Suc k])
            \<and> stops_at page_of mx k
            \<and> (\<forall>j. 1 \<le> j \<and> j < k \<longrightarrow> \<not> stops_at page_of mx j)"
  using assms
proof (induction page_of mx n tot0 sc f rule: scrape_loop.induct)
  case (1 page_of mx n tot0 sc f)
  from "1.prems" obtain m where n: "n = Suc m" by (cases n) auto
  have tot: "pages_total page_of n = tot0 + length (page_of n)"
    using "1.prems"(3) by (simp add: n pages_total_Suc)
  show ?case
  proof (cases "page_of n = [] \<or> mx \<le> int (tot0 + length (page_of n)) \<or> n + 1 > 1000")
    case True
    then have st: "stops_at page_of mx n"
      by (auto simp: stops_at_def tot)
    have "scrape_loop page_of mx n tot0 sc f = (sc @ page_of n, f @ [n])"
      using True "1.prems"(4) by (subst scrape_loop.simps) auto
    then show ?thesis
      using st "1.prems" by (intro exI[of _ n]) auto
  next
    case False
    then have ns: "\<not> stops_at page_of mx n"
      by (auto simp: stops_at_def tot)
    from False have step: "scrape_loop page_of mx n tot0 sc f
        = scrape_loop page_of mx (n + 1) (tot0 + length (page_of n)) (sc @ page_of n) (f @ [n])"
      using "1.prems"(4) by (subst scrape_loop.simps) auto
    have pre: "\<forall>j. 1 \<le> j \<and> j < n + 1 \<longrightarrow> \<not> stops_at page_of mx j"
      using ns "1.prems"(5) by (auto simp: less_Suc_eq)
    from False "1.prems" have "\<exists>k. n + 1 \<le> k \<and> k \<le> 1000
            \<and> scrape_loop page_of mx (n + 1) (tot0 + length (page_of n)) (sc @ page_of n) (f @ [n])
                = ((sc @ page_of n) @ concat (map page_of [n + 1 ..< Suc k]), (f @ [n]) @ [n + 1 ..< Suc k])
            \<and> stops_at page_of mx k
            \<and> (\<forall>j. 1 \<le> j \<and> j < k \<longrightarrow> \<not> stops_at page_of mx j)"
      using pre tot by (intro "1.IH") auto
    then obtain k where k: "n + 1 \<le> k" "k \<le> 1000"
      "scrape_loop page_of mx (n + 1) (tot0 + length (page_of n)) (sc @ page_of n) (f @ [n])
                = ((sc @ page_of n) @ concat (map page_of [n + 1 ..< Suc k]), (f @ [n]) @ [n + 1 ..< Suc k])"
      "stops_at page_of mx k" "\<forall>j. 1 \<le> j \<and> j < k \<longrightarrow> \<not> stops_at page_of mx j"
      by blast
    have up: "[n ..< Suc k] = n # [n + 1 ..< Suc k]"
      using k(1) by (simp add: upt_conv_Cons)
    have res: "scrape_loop page_of mx n tot0 sc f
        = (sc @ concat (map page_of [n ..< Suc k]), f @ [n ..< Suc k])"
      unfolding step k(3) up by simp
    from k(1) have "n \<le> k" by simp
    with k(2,4,5) res show ?thesis by blast
  qed
qed

lemma scrape_data_trace:
  assumes "robots_ok" "0 < max_entries"
  shows "\<exists>k. 1 \<le> k \<and> k \<le> 1000
           \<and> snd (scrape_data robots_ok page_of max_entries scraped) = [1 ..< Suc k]
           \<and> fst (scrape_data robots_ok page_of max_entries scraped) = scraped @ concat (map page_of [1 ..< Suc k])
           \<and> stops_at page_of max_entries k
           \<and> (\<forall>j. 1 \<le> j \<and> j < k \<longrightarrow> \<not> stops_at page_of max_entries j)"
proof -
  have "\<exists>k. 1 \<le> k \<and> k \<le> 1000
            \<and> scrape_loop page_of max_entries 1 0 scraped [] = (scraped @ concat (map page_of [1 ..< Suc k]), [] @ [1 ..< Suc k])
            \<and> stops_at page_of max_entries k
            \<and> (\<forall>j. 1 \<le> j \<and> j < k \<longrightarrow> \<not> stops_at page_of max_entries j)"
  proof (rule scrape_loop_trace)
    show "(0::nat) = pages_total page_of (1 - 1)" by (simp add: pages_total_def)
    show "int 0 < max_entries" using assms by simp
  qed simp_all
  then obtain k where k: "1 \<le> k" "k \<le> 1000"
     "scrape_loop page_of max_entries 1 0 scraped [] = (scraped @ concat (map page_of [1 ..< Suc k]), [] @ [1 ..< Suc k])"
     "stops_at page_of max_entries k" "\<forall>j. 1 \<le> j \<and> j < k \<longrightarrow> \<not> stops_at page_of max_entries j"
    by blast
  have sd: "scrape_data robots_ok page_of max_entries scraped = scrape_loop page_of max_entries 1 0 scraped []"
    using assms by (simp add: scrape_data_def)
  have "snd (scrape_data robots_ok page_of max_entries scraped) = [1 ..< Suc k]"
       "fst (scrape_data robots_ok page_of max_entries scraped) = scraped @ concat (map page_of [1 ..< Suc k])"
    unfolding sd k(3) by simp_all
  with k(1,2,4,5) show ?thesis by blast
qed

text \<open>
  Claim C6. The loop of \<open>scrape_data\<close> terminates (\<open>scrape_loop\<close> is a total function),
  and it requests at most 1000 pages: when the robots check passes and the target is
  positive it requests exactly the pages \<open>1 .. k\<close>, where \<open>k \<le> 1000\<close> is the first page
  behind which a stop condition holds (empty page, target reached, or page counter past
  1000); otherwise it requests none.
\<close>

theorem scrape_data_stops:
  "length (snd (scrape_data robots_ok page_of max_entries scraped)) \<le> 1000 \<and>
   (if robots_ok \<and> 0 < max_entries
    then \<exists>k. 1 \<le> k \<and> k \<le> 1000
           \<and> snd (scrape_data robots_ok page_of max_entries scraped) = [1 ..< Suc k]
           \<and> fst (scrape_data robots_ok page_of max_entries scraped) = scraped @ concat (map page_of [1 ..< Suc k])
           \<and> stops_at page_of max_entries k
           \<and> (\<forall>j. 1 \<le> j \<and> j < k \<longrightarrow> \<not> stops_at page_of max_entries j)
    else snd (scrape_data robots_ok page_of max_entries scraped) = [])"
proof (cases "robots_ok \<and> 0 < max_entries")
  case True
  then have ex: "\<exists>k. 1 \<le> k \<and> k \<le> 1000
           \<and> snd (scrape_data robots_ok page_of max_entries scraped) = [1 ..< Suc k]
           \<and> fst (scrape_data robots_ok page_of max_entries scraped) = scraped @ concat (map page_of [1 ..< Suc k])
           \<and> stops_at page_of max_entries k
           \<and> (\<forall>j. 1 \<le> j \<and> j < k \<longrightarrow> \<not> stops_at page_of max_entries j)"
    by (intro scrape_data_trace) simp_all
  then obtain k where "k \<le> 1000" "snd (scrape_data robots_ok page_of max_entries scraped) = [1 ..< Suc k]"
    by blast
  then have "length (snd (scrape_data robots_ok page_of max_entries scraped)) \<le> 1000"
    by simp
  with ex True show ?thesis by (simp only: if_True simp_thms)
next
  case False
  have e: "snd (scrape_data robots_ok page_of max_entries scraped) = []"
  proof (cases robots_ok)
    case True
    with False have "\<not> int 0 < max_entries" by simp
    then have "scrape_loop page_of max_entries 1 0 scraped [] = (scraped, [])"
      by (subst scrape_loop.simps) simp
    with True show ?thesis by (simp add: scrape_data_def)
  next
    case False
    then show ?thesis by (simp add: scrape_data_def)
  qed
  then have "length (snd (scrape_data robots_ok page_of max_entries scraped)) \<le> 1000"
    by simp
  with e False show ?thesis by (simp only: if_False simp_thms)
qed

text \<open>With two pages of one record and nothing behind them, pages 1, 2 and 3 are requested.\<close>

theorem scrape_data_stops_witness:
  "length (snd (scrape_data True (\<lambda>n. if n < 3 then [sample_entry] else []) 10 [])) \<le> 1000 \<and>
   snd (scrape_data True (\<lambda>n. if n < 3 then [sample_entry] else []) 10 []) = [1, 2, 3]"
proof -
  let ?p = "\<lambda>n::nat. if n < 3 then [sample_entry] else []"
  have c: "True \<and> (0::int) < 10" by simp
  from scrape_data_stops [of True ?p 10 "[]"]
  have len: "length (snd (scrape_data True ?p 10 [])) \<le> 1000"
    and ex: "\<exists>k. 1 \<le> k \<and> k \<le> 1000
           \<and> snd (scrape_data True ?p 10 []) = [1 ..< Suc k]
           \<and> fst (scrape_data True ?p 10 []) = [] @ concat (map ?p [1 ..< Suc k])
           \<and> stops_at ?p 10 k
           \<and> (\<forall>j. 1 \<le> j \<and> j < k \<longrightarrow> \<not> stops_at ?p 10 j)"
    unfolding if_P[OF c] by blast+
  then obtain k where k: "1 \<le> k" "snd (scrape_data True ?p 10 []) = [1 ..< Suc k]"
    "stops_at ?p 10 k" "\<forall>j. 1 \<le> j \<and> j < k \<longrightarrow> \<not> stops_at ?p 10 j"
    by blast
  have s3: "stops_at ?p 10 3" by code_simp
  have n1: "\<not> stops_at ?p 10 1" by code_simp
  have n2: "\<not> stops_at ?p 10 2" by code_simp
  have u: "[1 ..< Suc 3] = [1, 2, 3::nat]" by code_simp
  have "k \<noteq> 1" "k \<noteq> 2" using k(3) n1 n2 by auto
  moreover have "\<not> 3 < k" using k(4) s3 by auto
  ultimately have "k = 3" using k(1) by arith
  then have "snd (scrape_data True ?p 10 []) = [1, 2, 3]"
    using k(2) u by simp
  with len show ?thesis by simp
qed

section \<open>Properties of row extraction\<close>

lemma split_from_nonempty: "split_from sep cur s \<noteq> []"
  by (induction sep cur s rule: split_from.induct) auto

lemma split_from_two:
  "sep \<noteq> [] \<Longrightarrow> contains s sep \<Longrightarrow> 2 \<le> length (split_from sep cur s)"
proof (induction sep cur s rule: split_from.induct)
  case (1 sep cur)
  then show ?case by simp
next
  case (2 sep cur c cs)
  show ?case
  proof (cases "startswith (c # cs) sep")
    case True
    have "1 \<le> length (split_from sep [] (drop (length sep - 1) cs))"
      using split_from_nonempty [of sep "[]" "drop (length sep - 1) cs"]
      by (cases "split_from sep [] (drop (length sep - 1) cs)") auto
    with True "2.prems" show ?thesis by simp
  next
    case False
    with "2.prems" have "contains cs sep" by simp
    with False "2.prems" "2.IH"(2) show ?thesis by simp
  qed
qed

lemma split_degree_find:
  "[] \<notin> set ks \<Longrightarrow>
   split_degree ks t =
     Inr (case find (contains t) ks of
            None \<Rightarrow> ([], [])
          | Some degree \<Rightarrow> (strip (hd (split_from degree [] t)), degree))"
proof (induction ks)
  case Nil
  then show ?case by simp
next
  case (Cons k ks)
  then have k: "k \<noteq> []" by auto
  show ?case
  proof (cases "contains t k")
    case True
    have "2 \<le> length (split_from k [] t)" using split_from_two [OF k True] .
    with True k show ?thesis by (simp add: split_def)
  next
    case False
    with Cons show ?thesis by simp
  qed
qed

lemma degree_keywords_nonempty: "[] \<notin> set degree_keywords"
  by (simp add: degree_keywords_def)

lemma four_cells: "4 \<le> length xs \<Longrightarrow> \<exists>a b c d ys. xs = a # b # c # d # ys"
  by (auto simp: eval_nat_numeral Suc_le_length_iff)

lemma program_name_split:
  "\<exists>sn dt. (if b \<noteq> [] then split_degree degree_keywords b else Inr ([], [])) = Inr (sn, dt)
      \<and> (if b \<noteq> [] \<and> sn = [] then b else sn) = program_name_of b"
proof (cases "b = []")
  case True
  then show ?thesis by (simp add: program_name_of_def degree_keywords_def)
next
  case False
  show ?thesis
  proof (cases "find (contains b) degree_keywords")
    case None
    with False show ?thesis
      by (simp add: split_degree_find [OF degree_keywords_nonempty] program_name_of_def)
  next
    case (Some degree)
    with False show ?thesis
      by (simp add: split_degree_find [OF degree_keywords_nonempty] program_name_of_def)
  qed
qed

lemma extract_entry_try_primary:
  assumes "4 \<le> length (cells r)"
  shows "case entry_url urljoin base_url (links r) of
           Inl x \<Rightarrow> extract_entry_try urljoin r next_row = Inl x
         | Inr u \<Rightarrow>
             (\<exists>e. extract_entry_try urljoin r next_row = Inr (Some e) \<and> e \<noteq> []
                \<and> map_of e ''program_name'' = Some (PStr (program_name_of (cells r ! 1))))"
proof -
  from four_cells [OF assms] obtain a b c d others where cs: "cells r = a # b # c # d # others"
    by blast
  from program_name_split [of b] obtain sn dt
    where sd: "(if b \<noteq> [] then split_degree degree_keywords b else Inr ([], [])) = Inr (sn, dt)"
      and nm: "(if b \<noteq> [] \<and> sn = [] then b else sn) = program_name_of b"
    by blast
  have b: "cells r ! 1 = b" by (simp add: cs)
  show ?thesis
  proof (cases "entry_url urljoin base_url (links r)")
    case (Inl x)
    show ?thesis
      unfolding extract_entry_try_def cs b [unfolded cs] Inl
      by (simp only: list.case sd and_then_def sum.case prod.case Let_def)
  next
    case (Inr u)
    show ?thesis
      unfolding extract_entry_try_def cs b [unfolded cs] Inr
      apply (simp only: list.case sd and_then_def sum.case prod.case Let_def nm)
      apply (rule exI)
      apply (intro conjI)
        apply (rule refl)
       apply (simp only: list.distinct not_False_eq_True)
      apply (simp only: map_of.simps fst_conv snd_conv fun_upd_same)
      done
  qed
qed

lemma extract_entry_data_joins:
  assumes "4 \<le> length (cells r)" and "joins urljoin r"
  shows "\<exists>e. extract_entry_data urljoin r next_row = Some e \<and> e \<noteq> []
          \<and> map_of e ''program_name'' = Some (PStr (program_name_of (cells r ! 1)))"
  using extract_entry_try_primary [OF assms(1), of urljoin next_row] assms(2)
  by (auto simp: extract_entry_data_def joins_def split: sum.splits)

lemma extract_entry_data_raises:
  assumes "4 \<le> length (cells r)" and "\<not> joins urljoin r"
  shows "extract_entry_data urljoin r next_row = None"
  using extract_entry_try_primary [OF assms(1), of urljoin next_row] assms(2)
  by (auto simp: extract_entry_data_def joins_def split: sum.splits)

lemma program_name_of_nonempty: "t \<noteq> [] \<Longrightarrow> program_name_of t \<noteq> []"
  by (simp add: program_name_of_def split: option.split)

lemma extract_some:
  "4 \<le> length (cells r) \<Longrightarrow>
   (case extract_entry_data urljoin r nx of
      Some entry_data \<Rightarrow> if entry_data \<noteq> [] then acc @ [entry_data] else acc
    | None \<Rightarrow> acc)
   = acc @ (case extract_entry_data urljoin r nx of None \<Rightarrow> [] | Some e \<Rightarrow> [e])"
  using extract_entry_data_joins [of r urljoin nx] extract_entry_data_raises [of r urljoin nx]
  by (cases "joins urljoin r") auto

lemma scrape_rows_from_eq:
  "i \<le> length rows \<Longrightarrow>
   scrape_rows_from urljoin rows i acc =
     acc @ List.map_filter (record_of urljoin rows)
             (filter (\<lambda>j. is_primary (rows ! j)) [i ..< length rows])"
proof (induction urljoin rows i acc rule: scrape_rows_from.induct)
  case (1 urljoin rows i acc)
  show ?case
  proof (cases "i < length rows")
    case False
    with "1.prems" show ?thesis by (subst scrape_rows_from.simps) (simp add: map_filter_simps)
  next
    case lt: True
    then have up: "[i ..< length rows] = i # [i + 1 ..< length rows]"
      by (simp add: upt_conv_Cons)
    show ?thesis
    proof (cases "4 \<le> length (cells (rows ! i))")
      case False
      then have np: "\<not> is_primary (rows ! i)" by (simp add: is_primary_def)
      have "scrape_rows_from urljoin rows i acc = scrape_rows_from urljoin rows (i + 1) acc"
        using lt False by (subst scrape_rows_from.simps) simp
      also have "\<dots> = acc @ List.map_filter (record_of urljoin rows)
                          (filter (\<lambda>j. is_primary (rows ! j)) [i + 1 ..< length rows])"
        using lt False by (intro "1.IH"(3)) simp_all
      finally show ?thesis unfolding up using np by simp
    next
      case prim: True
      then have p: "is_primary (rows ! i)" by (simp add: is_primary_def)
      show ?thesis
      proof (cases "i + 1 < length rows \<and> length (cells (rows ! (i + 1))) = 1")
        case det: True
        then have d: "detail_row_of rows i = Some (rows ! (i + 1))"
          by (simp add: detail_row_of_def)
        from det have np1: "\<not> is_primary (rows ! (i + 1))" by (simp add: is_primary_def)
        from det have up1: "[i + 1 ..< length rows] = (i + 1) # [i + 1 + 1 ..< length rows]"
          by (simp add: upt_conv_Cons)
        let ?A = "case extract_entry_data urljoin (rows ! i) (Some (rows ! (i + 1))) of
                    Some entry_data \<Rightarrow> if entry_data \<noteq> [] then acc @ [entry_data] else acc
                  | None \<Rightarrow> acc"
        have A: "?A = acc @ (case record_of urljoin rows i of None \<Rightarrow> [] | Some e \<Rightarrow> [e])"
          unfolding record_of_def d by (rule extract_some [OF prim])
        have "scrape_rows_from urljoin rows i acc = scrape_rows_from urljoin rows (i + 1 + 1) ?A"
          using lt prim det
          by (subst scrape_rows_from.simps) (simp only: if_True simp_thms)
        also have "\<dots> = ?A @ List.map_filter (record_of urljoin rows)
                          (filter (\<lambda>j. is_primary (rows ! j)) [i + 1 + 1 ..< length rows])"
          using lt prim det by (intro "1.IH"(1)) simp_all
        finally show ?thesis
          unfolding up up1 A using p np1 by (simp add: map_filter_simps split: option.split)
      next
        case nodet: False
        then have d: "detail_row_of rows i = None"
          by (simp add: detail_row_of_def)
        let ?A = "case extract_entry_data urljoin (rows ! i) None of
                    Some entry_data \<Rightarrow> if entry_data \<noteq> [] then acc @ [entry_data] else acc
                  | None \<Rightarrow> acc"
        have A: "?A = acc @ (case record_of urljoin rows i of None \<Rightarrow> [] | Some e \<Rightarrow> [e])"
          unfolding record_of_def d by (rule extract_some [OF prim])
        have "scrape_rows_from urljoin rows i acc = scrape_rows_from urljoin rows (i + 1) ?A"
          using lt prim nodet
          by (subst scrape_rows_from.simps) (simp only: if_True if_False simp_thms)
        also have "\<dots> = ?A @ List.map_filter (record_of urljoin rows)
                          (filter (\<lambda>j. is_primary (rows ! j)) [i + 1 ..< length rows])"
          using lt prim nodet by (intro "1.IH"(2)) simp_all
        finally show ?thesis
          unfolding up A using p by (simp add: map_filter_simps split: option.split)
      qed
    qed
  qed
qed

lemma filter_index: "length (filter (\<lambda>j. P (xs ! j)) [0 ..< length xs]) = length (filter P xs)"
proof -
  have "filter P xs = filter P (map (\<lambda>j. xs ! j) [0 ..< length xs])"
    by (simp add: map_nth)
  also have "\<dots> = map (\<lambda>j. xs ! j) (filter (\<lambda>j. P (xs ! j)) [0 ..< length xs])"
    by (simp add: filter_map comp_def)
  finally show ?thesis by simp
qed

lemma record_of_primary:
  assumes "is_primary (rows ! i)"
  shows "(record_of urljoin rows i \<noteq> None) = joins urljoin (rows ! i)"
  using extract_entry_data_joins [of "rows ! i" urljoin "detail_row_of rows i"]
        extract_entry_data_raises [of "rows ! i" urljoin "detail_row_of rows i"] assms
  by (cases "joins urljoin (rows ! i)") (auto simp: record_of_def is_primary_def)

lemma length_map_filter:
  "length (List.map_filter f xs) = length (filter (\<lambda>x. f x \<noteq> None) xs)"
  by (induction xs) (auto simp: map_filter_simps split: option.split)

lemma length_records:
  "length (List.map_filter (record_of urljoin rows)
             (filter (\<lambda>i. is_primary (rows ! i)) [0 ..< length rows]))
   = length (filter (\<lambda>r. is_primary r \<and> joins urljoin r) rows)"
proof -
  have "filter (\<lambda>i. record_of urljoin rows i \<noteq> None)
          (filter (\<lambda>i. is_primary (rows ! i)) [0 ..< length rows])
        = filter (\<lambda>i. is_primary (rows ! i) \<and> joins urljoin (rows ! i)) [0 ..< length rows]"
    unfolding filter_filter
  proof (rule filter_cong [OF refl])
    fix i
    show "(is_primary (rows ! i) \<and> record_of urljoin rows i \<noteq> None)
          = (is_primary (rows ! i) \<and> joins urljoin (rows ! i))"
      using record_of_primary [of rows i urljoin] by blast
  qed
  then show ?thesis
    unfolding length_map_filter
    using filter_index [of "\<lambda>r. is_primary r \<and> joins urljoin r" rows] by simp
qed

text \<open>
  Claim C5, as stated: every row with at least 4 cells gives one record. A row with 4
  cells whose result link is \<open>//[result\<close> gives none: \<open>urljoin\<close> raises on this
  reference, \<open>_extract_entry_data\<close> returns \<open>None\<close> and the page has no record.
\<close>

theorem scrape_rows_pairing_counterexample:
  "is_primary sample_unjoinable
   \<and> sample_urljoin base_url ''//[result'' = Inl ValueError
   \<and> extract_entry_data sample_urljoin sample_unjoinable None = None
   \<and> scrape_rows_from sample_urljoin [sample_unjoinable] 0 [] = []"
  by code_simp

text \<open>
  Claim C5, amended. Over the rows behind the header, page extraction emits, in row
  order, the records of the rows with at least 4 cells: one record for such a row when
  its result link can be joined to the base URL, and none when \<open>urljoin\<close> raises on it.
  The record of such a row is extracted together with the row that follows it if and
  only if that row has exactly 1 cell (\<open>detail_row_of\<close>). A row consumed as a detail row
  has 1 cell, so it is never a primary row, and a row with fewer than 4 cells yields no
  record.
\<close>

theorem scrape_rows_pairing:
  "scrape_rows_from urljoin rows 0 []
     = List.map_filter (record_of urljoin rows)
         (filter (\<lambda>i. is_primary (rows ! i)) [0 ..< length rows])
   \<and> (\<forall>i < length rows. is_primary (rows ! i) \<longrightarrow>
        (if joins urljoin (rows ! i) then \<exists>e. record_of urljoin rows i = Some e \<and> e \<noteq> []
         else record_of urljoin rows i = None))
   \<and> length (scrape_rows_from urljoin rows 0 [])
       = length (filter (\<lambda>r. is_primary r \<and> joins urljoin r) rows)
   \<and> (\<forall>i. detail_row_of rows i \<noteq> None \<longrightarrow> \<not> is_primary (rows ! (i + 1)))"
proof (intro conjI allI impI)
  show eq: "scrape_rows_from urljoin rows 0 []
     = List.map_filter (record_of urljoin rows)
         (filter (\<lambda>i. is_primary (rows ! i)) [0 ..< length rows])"
    using scrape_rows_from_eq [of 0 rows urljoin "[]"] by simp
  show "length (scrape_rows_from urljoin rows 0 [])
       = length (filter (\<lambda>r. is_primary r \<and> joins urljoin r) rows)"
    unfolding eq by (rule length_records)
next
  fix i assume p: "is_primary (rows ! i)"
  show "if joins urljoin (rows ! i) then \<exists>e. record_of urljoin rows i = Some e \<and> e \<noteq> []
        else record_of urljoin rows i = None"
    using extract_entry_data_joins [of "rows ! i" urljoin "detail_row_of rows i"]
          extract_entry_data_raises [of "rows ! i" urljoin "detail_row_of rows i"] p
    by (cases "joins urljoin (rows ! i)") (auto simp: record_of_def is_primary_def)
next
  fix i assume "detail_row_of rows i \<noteq> None"
  then show "\<not> is_primary (rows ! (i + 1))"
    by (auto simp: detail_row_of_def is_primary_def split: if_splits)
qed

text \<open>
  Of the eight sample rows four have at least 4 cells and three of these give a record;
  the second row takes the third as its detail row, and the last row, whose link cannot
  be joined, gives no record.
\<close>

theorem scrape_rows_pairing_witness:
  "length (scrape_rows_from sample_urljoin sample_rows 0 []) = 3
   \<and> length (filter is_primary sample_rows) = 4
   \<and> is_primary (sample_rows ! 1) \<and> joins sample_urljoin (sample_rows ! 1)
   \<and> detail_row_of sample_rows 1 = Some sample_detail
   \<and> (\<exists>e. record_of sample_urljoin sample_rows 1 = Some e \<and> e \<noteq> [])
   \<and> is_primary (sample_rows ! 7) \<and> \<not> joins sample_urljoin (sample_rows ! 7)
   \<and> record_of sample_urljoin sample_rows 7 = None"
proof -
  have len: "length (filter (\<lambda>r. is_primary r \<and> joins sample_urljoin r) sample_rows) = 3"
    by code_simp
  have len4: "length (filter is_primary sample_rows) = 4" by code_simp
  have n: "(1::nat) < length sample_rows" "(7::nat) < length sample_rows" by code_simp+
  have p: "is_primary (sample_rows ! 1)" "is_primary (sample_rows ! 7)" by code_simp+
  have j: "joins sample_urljoin (sample_rows ! 1)" "\<not> joins sample_urljoin (sample_rows ! 7)"
    by code_simp+
  have d: "detail_row_of sample_rows 1 = Some sample_detail" by code_simp
  note t = scrape_rows_pairing [of sample_urljoin sample_rows]
  from t n(1) p(1) j(1)
  have a: "\<exists>e. record_of sample_urljoin sample_rows 1 = Some e \<and> e \<noteq> []"
    by (metis (no_types, lifting))
  from t n(2) p(2) j(2)
  have b: "record_of sample_urljoin sample_rows 7 = None"
    by (metis (no_types, lifting))
  from t have "length (scrape_rows_from sample_urljoin sample_rows 0 [])
                 = length (filter (\<lambda>r. is_primary r \<and> joins sample_urljoin r) sample_rows)"
    by blast
  with len have c: "length (scrape_rows_from sample_urljoin sample_rows 0 []) = 3" by simp
  from a b c len4 p j d show ?thesis by blast
qed

text \<open>
  Claim C10. For a primary row whose program cell is not empty, \<open>_extract_entry_data\<close>
  produces a record exactly when joining the result link does not raise, and every
  record it produces has a non-empty \<open>program_name\<close>: the stripped text before the first
  occurrence of the first degree keyword (in the order of the source) that occurs in the
  cell, and the whole cell text when no keyword occurs or that prefix is empty.
\<close>

theorem extract_program_name_nonempty:
  assumes "4 \<le> length (cells r)" and "cells r ! 1 \<noteq> []"
  shows "(\<exists>e. extract_entry_data urljoin r next_row = Some e) = joins urljoin r
         \<and> (\<forall>e. extract_entry_data urljoin r next_row = Some e \<longrightarrow>
               map_of e ''program_name'' = Some (PStr (program_name_of (cells r ! 1))))
         \<and> program_name_of (cells r ! 1) \<noteq> []"
  using extract_entry_data_joins [OF assms(1), of urljoin next_row]
        extract_entry_data_raises [OF assms(1), of urljoin next_row]
        program_name_of_nonempty [OF assms(2)]
  by (cases "joins urljoin r") auto

text \<open>
  A program cell that is exactly the keyword \<open>PhD\<close> gives the program name \<open>PhD\<close>.
\<close>

theorem extract_program_name_nonempty_witness:
  "4 \<le> length (cells sample_phd) \<and> cells sample_phd ! 1 = ''PhD''
   \<and> joins sample_urljoin sample_phd
   \<and> (\<exists>e. extract_entry_data sample_urljoin sample_phd None = Some e
          \<and> map_of e ''program_name'' = Some (PStr ''PhD''))"
proof -
  have a: "4 \<le> length (cells sample_phd)" by (simp add: sample_phd_def)
  have b: "cells sample_phd ! 1 = ''PhD''" by (simp add: sample_phd_def)
  have c: "cells sample_phd ! 1 \<noteq> []" unfolding b by simp
  have j: "joins sample_urljoin sample_phd" by code_simp
  have pn: "program_name_of ''PhD'' = ''PhD''" by code_simp
  from extract_program_name_nonempty [OF a c, of sample_urljoin None]
  show ?thesis using a b j pn by auto
qed

section \<open>Properties of the cleaner\<close>

lemma clean_text_total: "\<exists>r. clean_text (PStr s) = Inr r"
  by (simp add: clean_text_def)

lemma standardize_total: "\<exists>r. standardize_decision_status (PStr s) = Inr r"
  by (simp add: standardize_decision_status_def Let_def)

lemma clean_date_total: "\<exists>r. clean_date (PStr s) = Inr r"
  using clean_text_total [of s] by (auto simp: clean_date_def and_then_def)

lemma except_ValueError_float:
  "\<exists>r. except_ValueError (and_then (py_float g) (\<lambda>v. Inr (f v))) = Inr r"
  by (simp add: except_ValueError_def and_then_def py_float_def)

lemma except_ValueError_int:
  "\<exists>r. except_ValueError (and_then (py_int g) (\<lambda>v. Inr (f v))) = Inr r"
  by (simp add: except_ValueError_def and_then_def py_int_def)

lemma clean_gpa_total: "\<exists>r. clean_gpa (PStr s) = Inr r"
proof -
  obtain t where t: "clean_text (PStr s) = Inr t" using clean_text_total by blast
  let ?f = "\<lambda>gpa_value. if float_le (Fin 0) gpa_value \<and> float_le gpa_value (Fin 4)
              then format_f 2 gpa_value
              else if float_lt (Fin 4) gpa_value \<and> float_le gpa_value (Fin 10)
              then format_f 2 (float_mul (float_div gpa_value (Fin 10)) (Fin 4))
              else []"
  have "\<exists>r. (case re_search rx_decimal t of
          Some (g0 # g1 # gs) \<Rightarrow>
            except_ValueError (and_then (py_float g1) (\<lambda>gpa_value.
              if float_le (Fin 0) gpa_value \<and> float_le gpa_value (Fin 4)
              then Inr (format_f 2 gpa_value)
              else if float_lt (Fin 4) gpa_value \<and> float_le gpa_value (Fin 10)
              then Inr (format_f 2 (float_mul (float_div gpa_value (Fin 10)) (Fin 4)))
              else Inr []))
        | _ \<Rightarrow> Inr []) = Inr r"
    by (auto simp: except_ValueError_def and_then_def py_float_def split: option.split list.split)
  then show ?thesis by (simp add: clean_gpa_def t and_then_def)
qed

lemma clean_gre_score_total: "\<exists>r. clean_gre_score (PStr s) = Inr r"
proof -
  obtain t where t: "clean_text (PStr s) = Inr t" using clean_text_total by blast
  have "\<exists>r. (case re_search rx_digits t of
          Some (g0 # g1 # gs) \<Rightarrow>
            except_ValueError (and_then (py_int g1) (\<lambda>score.
              if 130 \<le> score \<and> score \<le> 170 then Inr (str_int score)
              else if 200 \<le> score \<and> score \<le> 800 then Inr (str_int score)
              else Inr []))
        | _ \<Rightarrow> Inr []) = Inr r"
    by (auto simp: except_ValueError_def and_then_def py_int_def split: option.split list.split)
  then show ?thesis by (simp add: clean_gre_score_def t and_then_def)
qed

lemma clean_gre_aw_total: "\<exists>r. clean_gre_aw (PStr s) = Inr r"
proof -
  obtain t where t: "clean_text (PStr s) = Inr t" using clean_text_total by blast
  have "\<exists>r. (case re_search rx_decimal t of
          Some (g0 # g1 # gs) \<Rightarrow>
            except_ValueError (and_then (py_float g1) (\<lambda>aw_score.
              if float_le (Fin 0) aw_score \<and> float_le aw_score (Fin 6)
              then Inr (format_f 1 aw_score)
              else Inr []))
        | _ \<Rightarrow> Inr []) = Inr r"
    by (auto simp: except_ValueError_def and_then_def py_float_def split: option.split list.split)
  then show ?thesis by (simp add: clean_gre_aw_def t and_then_def)
qed

lemma clean_degree_type_total: "\<exists>r. clean_degree_type (PStr s) = Inr r"
  using clean_text_total [of s] by (auto simp: clean_degree_type_def and_then_def Let_def)

lemma clean_semester_year_total: "\<exists>r. clean_semester_year (PStr s) = Inr r"
  using clean_text_total [of s] by (auto simp: clean_semester_year_def and_then_def Let_def)

lemma split_total: "sep \<noteq> [] \<Longrightarrow> \<exists>ps. split s sep = Inr ps \<and> ps \<noteq> []"
  by (simp add: split_def split_from_nonempty)

lemma gre_quant_text_total: "\<exists>r. gre_quant_text (PStr s) = Inr r"
proof (cases "contains s ''Q:''")
  case False
  then show ?thesis by (simp add: gre_quant_text_def and_then_def)
next
  case True
  obtain parts where p: "split s ''Q:'' = Inr parts" "parts \<noteq> []"
    using split_total [of "''Q:''" s] by auto
  obtain ps where q: "split (last parts) '','' = Inr ps" "ps \<noteq> []"
    using split_total [of "'',''" "last parts"] by auto
  from q(2) obtain x xs where "ps = x # xs" by (cases ps) auto
  with True p q show ?thesis by (simp add: gre_quant_text_def and_then_def)
qed

lemma entry_get_str: "string_valued e \<Longrightarrow> entry_get e k (PStr []) = PStr (field_text e k)"
proof -
  assume sv: "string_valued e"
  show ?thesis
  proof (cases "map_of e k")
    case None
    then show ?thesis by (simp add: entry_get_def field_text_def)
  next
    case (Some v)
    then have "(k, v) \<in> set e" by (rule map_of_SomeD)
    with sv have "is_str v" by (auto simp: string_valued_def list_all_iff)
    then obtain s where "v = PStr s" by (cases v) auto
    with Some show ?thesis by (simp add: entry_get_def field_text_def)
  qed
qed

lemma clean_text_cleaned: "clean_text (PStr s) = Inr (cleaned_text s)"
  using clean_text_total [of s] by (auto simp: cleaned_text_def)

lemma validate_two:
  "validate_entry ((''program_name'', PStr p) # (''university'', PStr u) # rest)
     = Inr (strip u \<noteq> [] \<and> strip p \<noteq> [])"
proof -
  have "strip [] = []" by (simp add: strip_def)
  then have "u = [] \<Longrightarrow> strip u = []" "p = [] \<Longrightarrow> strip p = []" by auto
  then show ?thesis by (auto simp: validate_entry_def)
qed

lemma clean_entry_try_str:
  assumes sv: "string_valued e"
  shows "\<exists>ce. clean_entry_try e = Inr (if \<not> admitted e then None else Some ce) \<and> ce \<noteq> []
          \<and> map_of ce ''university'' = Some (PStr (cleaned_text (field_text e ''university'')))
          \<and> map_of ce ''program_name'' = Some (PStr (cleaned_text (field_text e ''program_name'')))
          \<and> map_of ce ''url'' = Some (PStr (field_text e ''url''))"
proof -
  note g = entry_get_str [OF sv]
  obtain r1 where r1: "standardize_decision_status (PStr (field_text e ''applicant_status'')) = Inr r1"
    using standardize_total by blast
  obtain r2 where r2: "clean_date (PStr (field_text e ''date_added'')) = Inr r2"
    using clean_date_total by blast
  obtain r3 where r3: "clean_date (PStr (field_text e ''acceptance_date'')) = Inr r3"
    using clean_date_total by blast
  obtain r4 where r4: "clean_date (PStr (field_text e ''rejection_date'')) = Inr r4"
    using clean_date_total by blast
  obtain r5 where r5: "clean_semester_year (PStr (field_text e ''semester_year'')) = Inr r5"
    using clean_semester_year_total by blast
  obtain r6 where r6: "clean_gpa (PStr (field_text e ''gpa'')) = Inr r6"
    using clean_gpa_total by blast
  obtain r7 where r7: "clean_gre_score (PStr (field_text e ''gre_verbal'')) = Inr r7"
    using clean_gre_score_total by blast
  obtain r8 where r8: "gre_quant_text (PStr (field_text e ''gre_score'')) = Inr r8"
    using gre_quant_text_total by blast
  obtain r9 where r9: "clean_gre_score (PStr r8) = Inr r9"
    using clean_gre_score_total by blast
  obtain r10 where r10: "clean_gre_aw (PStr (field_text e ''gre_aw'')) = Inr r10"
    using clean_gre_aw_total by blast
  obtain r11 where r11: "clean_degree_type (PStr (field_text e ''degree_type'')) = Inr r11"
    using clean_degree_type_total by blast
  show ?thesis
    unfolding clean_entry_try_def admitted_def
    apply (simp only: g clean_text_cleaned r1 r2 r3 r4 r5 r6 r7 r8 r9 r10 r11
             and_then_def sum.case Let_def validate_two)
    apply (rule exI)
    apply (intro conjI)
        apply (rule refl)
       apply (simp only: list.distinct not_False_eq_True)
      apply (simp only: map_of.simps fst_conv snd_conv fun_upd_apply list.inject char.inject
                 simp_thms if_True if_False)
     apply (simp only: map_of.simps fst_conv snd_conv fun_upd_apply list.inject char.inject
                simp_thms if_True if_False)
    apply (simp only: map_of.simps fst_conv snd_conv fun_upd_apply list.inject char.inject
               list.distinct simp_thms if_True if_False)
    done
qed

lemma clean_entry_str:
  assumes sv: "string_valued e"
  shows "(clean_entry e \<noteq> None) = admitted e"
    and "admitted e \<Longrightarrow> \<exists>ce. clean_entry e = Some ce \<and> ce \<noteq> []
          \<and> map_of ce ''university'' = Some (PStr (cleaned_text (field_text e ''university'')))
          \<and> map_of ce ''program_name'' = Some (PStr (cleaned_text (field_text e ''program_name'')))
          \<and> map_of ce ''url'' = Some (PStr (field_text e ''url''))"
  using clean_entry_try_str [OF sv] by (auto simp: clean_entry_def split: if_splits)

lemma clean_loop_append: "clean_loop c (xs @ ys) = clean_loop (clean_loop c xs) ys"
  by (induction xs arbitrary: c) simp_all

lemma clean_step_total: "clean_step (c\<lparr>total_entries := n\<rparr>) e = (clean_step c e)\<lparr>total_entries := n\<rparr>"
  by (simp add: clean_step_def split: option.split)

lemma clean_loop_total: "clean_loop (c\<lparr>total_entries := n\<rparr>) raw = (clean_loop c raw)\<lparr>total_entries := n\<rparr>"
  by (induction raw arbitrary: c) (simp_all add: clean_step_total)

lemma clean_step_removed:
  "clean_step (c\<lparr>removed_entries := Suc (removed_entries c)\<rparr>) e
     = (clean_step c e)\<lparr>removed_entries := Suc (removed_entries (clean_step c e))\<rparr>"
  by (simp add: clean_step_def split: option.split)

lemma clean_loop_removed:
  "clean_loop (c\<lparr>removed_entries := Suc (removed_entries c)\<rparr>) raw
     = (clean_loop c raw)\<lparr>removed_entries := Suc (removed_entries (clean_loop c raw))\<rparr>"
proof (induction raw arbitrary: c)
  case Nil
  show ?case by simp
next
  case (Cons e raw)
  show ?case
    unfolding clean_loop.simps clean_step_removed by (rule Cons.IH)
qed

lemma clean_loop_dropped:
  assumes "clean_entry e = None"
  shows "clean_loop c (before @ e # after)
           = (clean_loop c (before @ after))\<lparr>removed_entries := Suc (removed_entries (clean_loop c (before @ after)))\<rparr>"
proof -
  have "clean_step (clean_loop c before) e
          = (clean_loop c before)\<lparr>removed_entries := Suc (removed_entries (clean_loop c before))\<rparr>"
    using assms by (simp add: clean_step_def)
  then show ?thesis
    unfolding clean_loop_append clean_loop.simps by (simp only: clean_loop_removed)
qed

lemma clean_data_dropped:
  assumes "clean_entry e = None"
  shows "fst (clean_data c (before @ e # after)) = fst (clean_data c (before @ after))"
    and "cleaned_entries (snd (clean_data c (before @ e # after)))
           = cleaned_entries (snd (clean_data c (before @ after)))"
    and "removed_entries (snd (clean_data c (before @ e # after)))
           = removed_entries (snd (clean_data c (before @ after))) + 1"
proof -
  let ?c = "c\<lparr>cleaned_data := []\<rparr>"
  have a: "c\<lparr>total_entries := n, cleaned_data := []\<rparr> = ?c\<lparr>total_entries := n\<rparr>" for n
    by simp
  show "fst (clean_data c (before @ e # after)) = fst (clean_data c (before @ after))"
    unfolding clean_data_def Let_def fst_conv a clean_loop_total
    by (simp add: clean_loop_dropped [OF assms])
  show "cleaned_entries (snd (clean_data c (before @ e # after)))
           = cleaned_entries (snd (clean_data c (before @ after)))"
    unfolding clean_data_def Let_def snd_conv a clean_loop_total
    by (simp add: clean_loop_dropped [OF assms])
  show "removed_entries (snd (clean_data c (before @ e # after)))
           = removed_entries (snd (clean_data c (before @ after))) + 1"
    unfolding clean_data_def Let_def snd_conv a clean_loop_total
    by (simp add: clean_loop_dropped [OF assms])
qed

lemma clean_loop_str:
  "list_all string_valued raw \<Longrightarrow>
   cleaned_data (clean_loop c raw)
     = cleaned_data c @ map (\<lambda>e. the (clean_entry e)) (filter admitted raw)"
proof (induction raw arbitrary: c)
  case Nil
  then show ?case by simp
next
  case (Cons e raw)
  then have sv: "string_valued e" and rest: "list_all string_valued raw" by simp_all
  show ?case
  proof (cases "admitted e")
    case True
    from clean_entry_str(2) [OF sv True] obtain ce where ce: "clean_entry e = Some ce" "ce \<noteq> []"
      by blast
    then have "cleaned_data (clean_step c e) = cleaned_data c @ [the (clean_entry e)]"
      by (simp add: clean_step_def)
    with True Cons.IH [OF rest, of "clean_step c e"] show ?thesis by simp
  next
    case False
    with clean_entry_str(1) [OF sv] have "clean_entry e = None" by simp
    then have "cleaned_data (clean_step c e) = cleaned_data c"
      by (simp add: clean_step_def)
    with False Cons.IH [OF rest, of "clean_step c e"] show ?thesis by simp
  qed
qed

lemma clean_data_str:
  "list_all string_valued raw \<Longrightarrow>
   fst (clean_data c raw) = map (\<lambda>e. the (clean_entry e)) (filter admitted raw)"
  by (simp add: clean_data_def Let_def clean_loop_str)

text \<open>
  Claim C1, as stated: a record is in the output if and only if its \<open>university\<close> and
  \<open>program_name\<close> are non-empty after text cleaning. The record with university \<open># #\<close>
  and program \<open>CS\<close> has both fields non-empty after cleaning (the university is cleaned to
  a single space), and it is not in the output.
\<close>

theorem clean_data_admission_counterexample:
  "cleaned_text (field_text sample_blank ''university'') = '' ''
   \<and> cleaned_text (field_text sample_blank ''program_name'') = ''CS''
   \<and> fst (clean_data new_cleaner [sample_blank]) = []"
  by code_simp

text \<open>
  Claim C1, amended. For string-valued raw records, the output of \<open>clean_data\<close> consists
  of the cleaned forms, in order, of exactly those records whose \<open>university\<close> and
  \<open>program_name\<close> each contain a character that is not whitespace after text cleaning
  (\<open>admitted\<close>, which reads no other field); \<open>_validate_entry\<close> tests the stripped value.
\<close>

theorem clean_data_admission:
  assumes "list_all string_valued raw"
  shows "fst (clean_data c raw) = map (\<lambda>e. the (clean_entry e)) (filter admitted raw)
     \<and> (\<forall>e \<in> set raw. (clean_entry e \<noteq> None) = admitted e)
     \<and> (\<forall>e \<in> set raw. admitted e \<longrightarrow>
          (\<exists>ce. clean_entry e = Some ce
             \<and> map_of ce ''university'' = Some (PStr (cleaned_text (field_text e ''university'')))
             \<and> map_of ce ''program_name'' = Some (PStr (cleaned_text (field_text e ''program_name'')))))"
proof (intro conjI ballI impI)
  show "fst (clean_data c raw) = map (\<lambda>e. the (clean_entry e)) (filter admitted raw)"
    using assms by (rule clean_data_str)
next
  fix e assume "e \<in> set raw"
  with assms have sv: "string_valued e" by (simp add: list_all_iff)
  then show "(clean_entry e \<noteq> None) = admitted e" by (rule clean_entry_str(1))
  assume "admitted e"
  with clean_entry_str(2) [OF sv]
  show "\<exists>ce. clean_entry e = Some ce
             \<and> map_of ce ''university'' = Some (PStr (cleaned_text (field_text e ''university'')))
             \<and> map_of ce ''program_name'' = Some (PStr (cleaned_text (field_text e ''program_name'')))"
    by blast
qed

text \<open>
  Of the two sample records, only the one with a non-blank university is kept.
\<close>

theorem clean_data_admission_witness:
  "list_all string_valued [sample_entry, sample_blank]
   \<and> admitted sample_entry \<and> \<not> admitted sample_blank
   \<and> fst (clean_data new_cleaner [sample_entry, sample_blank]) = [the (clean_entry sample_entry)]"
proof -
  have sv: "list_all string_valued [sample_entry, sample_blank]" by code_simp
  have a: "admitted sample_entry" by code_simp
  have b: "\<not> admitted sample_blank" by code_simp
  from clean_data_admission [OF sv, of new_cleaner]
  have "fst (clean_data new_cleaner [sample_entry, sample_blank])
          = map (\<lambda>e. the (clean_entry e)) (filter admitted [sample_entry, sample_blank])"
    by blast
  with a b sv show ?thesis by simp
qed

text \<open>
  Claim C9. The output of \<open>_clean_text\<close> should have no two consecutive whitespace
  characters and no leading or trailing whitespace. Whitespace is collapsed and stripped
  before the special characters are removed, so removing a character that stood between
  two spaces, or first in the text, leaves a double or a leading space.
\<close>

theorem clean_text_double_space:
  "clean_text (PStr ''a # b'') = Inr ''a  b'' \<and> clean_text (PStr ''# a'') = Inr '' a''"
  by code_simp

lemma numeric_failure_empty:
  "py_int g = Inl ValueError \<Longrightarrow> except_ValueError (and_then (py_int g) f) = Inr []"
  "py_float g = Inl ValueError \<Longrightarrow> except_ValueError (and_then (py_float g) h) = Inr []"
  by (simp_all add: except_ValueError_def and_then_def)

text \<open>
  Claim C8. When cleaning a record raises, \<open>clean_entry\<close> yields no record, and
  \<open>clean_data\<close> goes on: the run over a list with that record returns the same cleaned
  records as the run over the list without it and counts one more removed record. On a
  string no field parser raises, and a numeric parse that fails with \<open>ValueError\<close> is
  turned into the empty string.
\<close>

theorem record_failure_is_local:
  assumes "clean_entry_try e = Inl x"
  shows "clean_entry e = None
     \<and> fst (clean_data c (before @ e # after)) = fst (clean_data c (before @ after))
     \<and> cleaned_entries (snd (clean_data c (before @ e # after)))
           = cleaned_entries (snd (clean_data c (before @ after)))
     \<and> removed_entries (snd (clean_data c (before @ e # after)))
           = removed_entries (snd (clean_data c (before @ after))) + 1
     \<and> (\<exists>r. clean_text (PStr s) = Inr r)
     \<and> (\<exists>r. standardize_decision_status (PStr s) = Inr r)
     \<and> (\<exists>r. clean_date (PStr s) = Inr r)
     \<and> (\<exists>r. clean_gpa (PStr s) = Inr r)
     \<and> (\<exists>r. clean_gre_score (PStr s) = Inr r)
     \<and> (\<exists>r. clean_gre_aw (PStr s) = Inr r)
     \<and> (\<exists>r. clean_degree_type (PStr s) = Inr r)
     \<and> (\<exists>r. clean_semester_year (PStr s) = Inr r)
     \<and> (py_int g = Inl ValueError \<longrightarrow> except_ValueError (and_then (py_int g) f) = Inr [])
     \<and> (py_float g = Inl ValueError \<longrightarrow> except_ValueError (and_then (py_float g) h) = Inr [])"
proof -
  from assms have n: "clean_entry e = None" by (simp add: clean_entry_def)
  note d = clean_data_dropped [OF n, of c before after]
  show ?thesis
    using n d clean_text_total [of s] standardize_total [of s] clean_date_total [of s]
      clean_gpa_total [of s] clean_gre_score_total [of s] clean_gre_aw_total [of s]
      clean_degree_type_total [of s] clean_semester_year_total [of s]
      numeric_failure_empty(1) [of g f] numeric_failure_empty(2) [of g h]
    by (intro conjI impI) blast+
qed

text \<open>
  A record whose university is the number 5 raises \<open>AttributeError\<close> inside \<open>clean_entry\<close>
  and is dropped between two valid records.
\<close>

theorem record_failure_is_local_witness:
  "clean_entry_try sample_bad = Inl AttributeError
   \<and> clean_entry sample_bad = None
   \<and> fst (clean_data new_cleaner [sample_entry, sample_bad, sample_entry])
        = fst (clean_data new_cleaner [sample_entry, sample_entry])
   \<and> removed_entries (snd (clean_data new_cleaner [sample_entry, sample_bad, sample_entry]))
        = removed_entries (snd (clean_data new_cleaner [sample_entry, sample_entry])) + 1
   \<and> py_int ''x'' = Inl ValueError
   \<and> except_ValueError (and_then (py_int ''x'') (\<lambda>v. Inr (str_int v))) = Inr []"
proof -
  have a: "clean_entry_try sample_bad = Inl AttributeError" by code_simp
  have b: "py_int ''x'' = Inl ValueError" by code_simp
  from record_failure_is_local [OF a, where c = new_cleaner and before = "[sample_entry]"
         and after = "[sample_entry]" and s = "''x''" and g = "''x''"
         and f = "\<lambda>v. Inr (str_int v)" and h = "\<lambda>v. Inr []"]
  show ?thesis using a b by simp
qed

section \<open>Properties of the decision status\<close>

lemma startswith_iff: "startswith s p = (\<exists>b. s = p @ b)"
  by (induction s p rule: startswith.induct) auto

lemma contains_iff: "contains s p = (\<exists>a b. s = a @ p @ b)"
proof (induction s)
  case Nil
  then show ?case by auto
next
  case (Cons c cs)
  show ?case
  proof
    assume "contains (c # cs) p"
    then consider "startswith (c # cs) p" | "contains cs p" by auto
    then show "\<exists>a b. c # cs = a @ p @ b"
    proof cases
      case 1
      then obtain b where "c # cs = p @ b" by (auto simp: startswith_iff)
      then have "c # cs = [] @ p @ b" by simp
      then show ?thesis by blast
    next
      case 2
      with Cons obtain a b where "cs = a @ p @ b" by auto
      then have "c # cs = (c # a) @ p @ b" by simp
      then show ?thesis by blast
    qed
  next
    assume "\<exists>a b. c # cs = a @ p @ b"
    then obtain a b where ab: "c # cs = a @ p @ b" by blast
    show "contains (c # cs) p"
    proof (cases a)
      case Nil
      with ab have "startswith (c # cs) p" by (auto simp: startswith_iff)
      then show ?thesis by simp
    next
      case (Cons x a')
      with ab have "cs = a' @ p @ b" by simp
      with Cons.IH have "contains cs p" by blast
      then show ?thesis by simp
    qed
  qed
qed

lemma contains_rev: "contains (rev s) (rev p) = contains s p"
proof -
  have "(\<exists>a b. rev s = a @ rev p @ b) = (\<exists>a b. s = a @ p @ b)"
  proof
    assume "\<exists>a b. rev s = a @ rev p @ b"
    then obtain a b where "rev s = a @ rev p @ b" by blast
    then have "rev (rev s) = rev (a @ rev p @ b)" by simp
    then have "s = rev b @ p @ rev a" by simp
    then show "\<exists>a b. s = a @ p @ b" by blast
  next
    assume "\<exists>a b. s = a @ p @ b"
    then obtain a b where "s = a @ p @ b" by blast
    then have "rev s = rev b @ rev p @ rev a" by simp
    then show "\<exists>a b. rev s = a @ rev p @ b" by blast
  qed
  then show ?thesis by (simp add: contains_iff)
qed

lemma contains_dropWhile:
  "p \<noteq> [] \<Longrightarrow> \<not> is_space (hd p) \<Longrightarrow> contains (dropWhile is_space s) p = contains s p"
proof (induction s)
  case Nil
  then show ?case by simp
next
  case (Cons c cs)
  show ?case
  proof (cases "is_space c")
    case True
    with Cons.prems have "\<not> startswith (c # cs) p" by (cases p) auto
    with True Cons show ?thesis by simp
  next
    case False
    then show ?thesis by simp
  qed
qed

lemma contains_strip:
  assumes "p \<noteq> []" "\<not> is_space (hd p)" "\<not> is_space (last p)"
  shows "contains (strip s) p = contains s p"
proof -
  have r: "rev p \<noteq> []" "\<not> is_space (hd (rev p))"
    using assms by (simp_all add: hd_rev)
  have "contains (strip s) p = contains (dropWhile is_space (rev (dropWhile is_space s))) (rev p)"
    unfolding strip_def using contains_rev [of "dropWhile is_space (rev (dropWhile is_space s))" "rev p"]
    by simp
  also have "\<dots> = contains (rev (dropWhile is_space s)) (rev p)"
    using r by (rule contains_dropWhile)
  also have "\<dots> = contains (dropWhile is_space s) p" by (rule contains_rev)
  also have "\<dots> = contains s p" using assms(1,2) by (rule contains_dropWhile)
  finally show ?thesis .
qed

lemma strip_Nil: "strip [] = []"
  by (simp add: strip_def)

lemma contains_strip_keywords:
  "contains (strip x) ''accept'' = contains x ''accept''"
  "contains (strip x) ''admit'' = contains x ''admit''"
  "contains (strip x) ''reject'' = contains x ''reject''"
  "contains (strip x) ''den'' = contains x ''den''"
  "contains (strip x) ''wait'' = contains x ''wait''"
  "contains (strip x) ''list'' = contains x ''list''"
  "contains (strip x) ''interview'' = contains x ''interview''"
  by (rule contains_strip; simp add: is_space_def)+

text \<open>
  Claim C7, as stated: with no keyword in the input, the result is the title-cased
  input. For the input \<open> foo\<close> (with a leading space) the title-cased input is \<open> Foo\<close>,
  and the function returns \<open>Foo\<close>.
\<close>

theorem standardize_decision_status_counterexample:
  "standardize_decision_status (PStr '' foo'') = Inr ''Foo'' \<and> title '' foo'' = '' Foo''"
  by code_simp

text \<open>
  Claim C7, amended. \<open>_standardize_decision_status\<close> returns \<open>Accepted\<close> if the
  lowercased input contains \<open>accept\<close> or \<open>admit\<close>; otherwise \<open>Rejected\<close> if it contains
  \<open>reject\<close> or \<open>den\<close>; otherwise \<open>Waitlisted\<close> if it contains \<open>wait\<close> or \<open>list\<close>; otherwise
  \<open>Interview\<close> if it contains \<open>interview\<close>; otherwise the title-cased form of the
  lowercased input with its leading and trailing whitespace removed (\<open>decision_spec\<close>:
  \<open>status.lower().strip().title()\<close>, in which lowercasing comes first). The empty input
  gives the empty string, \<open>accepted\<close> gives \<open>Accepted\<close>, \<open>wait listed\<close> gives \<open>Waitlisted\<close>
  and \<open>foo\<close> gives \<open>Foo\<close>.
\<close>

theorem standardize_decision_status_spec:
  "standardize_decision_status (PStr s) = Inr (decision_spec s)
   \<and> standardize_decision_status (PStr []) = Inr []
   \<and> standardize_decision_status (PStr ''accepted'') = Inr ''Accepted''
   \<and> standardize_decision_status (PStr ''wait listed'') = Inr ''Waitlisted''
   \<and> standardize_decision_status (PStr ''foo'') = Inr ''Foo''"
proof -
  have e: "decision_spec [] = []" by code_simp
  have 1: "standardize_decision_status (PStr s) = Inr (decision_spec s)"
  proof (cases "s = []")
    case True
    then show ?thesis by (simp add: standardize_decision_status_def e)
  next
    case False
    then show ?thesis
      by (simp add: standardize_decision_status_def decision_spec_def Let_def
            contains_strip_keywords)
  qed
  have 2: "standardize_decision_status (PStr []) = Inr []" by code_simp
  have 3: "standardize_decision_status (PStr ''accepted'') = Inr ''Accepted''" by code_simp
  have 4: "standardize_decision_status (PStr ''wait listed'') = Inr ''Waitlisted''" by code_simp
  have 5: "standardize_decision_status (PStr ''foo'') = Inr ''Foo''" by code_simp
  from 1 2 3 4 5 show ?thesis by blast
qed

section \<open>Properties of the GPA parser\<close>


lemma rx_run_close: "rx_run [GClose] s pos [b] caps = Some (pos, caps @ [(b, pos)])"
  by simp























end
